theory Spec2Isabelle
  imports Main "HOL-Library.AList"
begin

section \<open>JavaScript values and objects\<close>

text \<open>
  The instance resolver is dynamically typed JavaScript. Its values are modelled by one
  datatype. Numbers are integers here (fractions and NaN play no part in the resolver's
  logic). An object is the list of its own properties in the order \<open>Object.keys\<close>
  enumerates them, with distinct keys. Property names are plain names: the path syntax
  of lodash (\<open>a.b\<close>) and properties inherited from \<open>Object.prototype\<close> are outside
  the model.
\<close>

datatype jsval =
    JUndefined
  | JNull
  | JBool bool
  | JNum int
  | JStr string
  | JArr "jsval list"
  | JObj "(string \<times> jsval) list"

type_synonym jsobj = "(string \<times> jsval) list"

fun truthy :: "jsval \<Rightarrow> bool" where
  "truthy JUndefined = False"
| "truthy JNull = False"
| "truthy (JBool b) = b"
| "truthy (JNum n) = (n \<noteq> 0)"
| "truthy (JStr s) = (s \<noteq> [])"
| "truthy (JArr xs) = True"
| "truthy (JObj ps) = True"

text \<open>\<open>ob[k]\<close>: a missing property reads as \<open>undefined\<close>.\<close>

definition getProp :: "jsobj \<Rightarrow> string \<Rightarrow> jsval" where
  "getProp ob k = (case map_of ob k of None \<Rightarrow> JUndefined | Some v \<Rightarrow> v)"

definition hasOwnProperty :: "('k \<times> 'v) list \<Rightarrow> 'k \<Rightarrow> bool" where
  "hasOwnProperty ob k = (k \<in> set (map fst ob))"

definition Object_keys :: "('k \<times> 'v) list \<Rightarrow> 'k list" where
  "Object_keys ob = map fst ob"

text \<open>
  \<open>ob[k] = v\<close> is \<^const>\<open>AList.update\<close>: an existing key keeps its place, a new key is
  appended. \<open>delete ob[k]\<close> is \<^const>\<open>AList.delete\<close>.

  \<open>_.pick(ob, paths)\<close> of lodash builds a fresh object by walking \<open>paths\<close> and copying
  each property that \<open>ob\<close> has.
\<close>

definition pick :: "('k \<times> 'v) list \<Rightarrow> 'k list \<Rightarrow> ('k \<times> 'v) list" where
  "pick ob paths =
     fold (\<lambda>p r. case map_of ob p of None \<Rightarrow> r | Some v \<Rightarrow> AList.update p v r) paths []"

text \<open>\<open>Object.assign(target, source)\<close>.\<close>

definition Object_assign :: "('k \<times> 'v) list \<Rightarrow> ('k \<times> 'v) list \<Rightarrow> ('k \<times> 'v) list" where
  "Object_assign target source = fold (\<lambda>(k, v) r. AList.update k v r) source target"

text \<open>
  \<open>a === b\<close>. Primitives compare by content. Arrays and objects compare by reference;
  wherever the resolver compares, one side is a value stored on an entity and the other
  comes from the request or from the workflow definition, never the same reference.
\<close>

fun strict_eq :: "jsval \<Rightarrow> jsval \<Rightarrow> bool" where
  "strict_eq (JArr xs) b = False"
| "strict_eq (JObj ps) b = False"
| "strict_eq a b = (a = b)"

text \<open>\<open>xs.join(sep)\<close> on an array of strings.\<close>

fun join :: "string \<Rightarrow> string list \<Rightarrow> string" where
  "join sep [] = []"
| "join sep [x] = x"
| "join sep (x # y # ys) = x @ sep @ join sep (y # ys)"

section \<open>Errors\<close>

text \<open>
  Every \<open>throw\<close> of the source is a value of this type. \<open>Error\<close> is the plain JavaScript
  \<open>Error\<close>; \<open>TypeError\<close> is what the runtime raises on a property access on
  \<open>null\<close> or \<open>undefined\<close>; \<open>ExternalError\<close> is a failure of a collaborator that
  the resolver passes on unwrapped.
\<close>

datatype error =
    UserInputError string
  | AuthorizationError string
  | NotFoundError string
  | Error string
  | TypeError string
  | ExternalError string

section \<open>The data model\<close>

text \<open>
  An element descriptor of the model definition. An absent \<open>field\<close> is the empty string,
  which the source's truthiness tests treat alike. \<open>elem_input\<close> is the descriptor's
  \<open>input\<close> attribute.
\<close>

record element =
  field :: string
  elem_input :: jsval
  joinField :: string
  listingFilterMultiple :: bool
  idSequence :: string

datatype acl_action = Access | Write | Read | Create | Destroy | Task

record acl_match =
  allow :: bool
  allowedFields :: "string list option"
  allowedRestrictions :: "string list option"
  allowedTasks :: "string list option"

text \<open>
  The rule set behind \<open>acl.applyRules(targets, action, object)\<close> is not part of the
  resolver; it is a parameter.
\<close>

type_synonym acl = "string list \<Rightarrow> acl_action \<Rightarrow> jsobj option \<Rightarrow> acl_match"

record identity =
  ident_id :: string
  isValidatedEmail :: bool

record outcome_def =
  outcome_type :: string
  outcome_result :: string
  requiresValidatedSubmitter :: bool
  skipValidations :: bool
  outcome_state :: "jsobj option"
  sequenceAssignment :: "string list"
  dateAssignments :: "string list"

record form_def =
  form :: string
  outcomes :: "outcome_def list option"

record validation_set =
  bindings :: "string list"
  evaluate :: "jsobj \<Rightarrow> bool"

text \<open>The value stored in the lookup objects of readable and writable fields.\<close>

datatype allowed = FromElement element | AdditionalField

section \<open>Queries\<close>

text \<open>
  The listing query is what the resolver tells the query builder: a projection, the
  window-count column, a limit, an offset, where-clauses and an ordering. A builder is the
  list of its clauses, each with the connective (\<open>where\<close>/\<open>andWhere\<close> or \<open>orWhere\<close>)
  that attached it.
\<close>

datatype conn = AndC | OrC

datatype clause =
    WhereEq string jsval
  | WhereNull string
  | WhereIn string "jsval list"
  | WhereGroup "(conn \<times> clause) list"

type_synonym builder = "(conn \<times> clause) list"

record order_spec =
  ord_column :: string
  ord_desc :: bool

record query =
  selects :: "string list"
  full_count :: bool
  qlimit :: int
  qoffset :: int
  wheres :: builder
  skipUndefined :: bool
  orderBy :: "order_spec list"

record list_input =
  first :: "int option"
  offset :: "int option"
  filter_in :: "jsobj option"
  sorting :: "jsobj option"

section \<open>The resolver\<close>

text \<open>
  The fields of an \<open>InstanceResolver\<close>. The element groups (\<open>ownerFields\<close>,
  \<open>stateFields\<close>, ...) are computed at construction by helpers of another module and
  are taken as given; the two lookup objects of readable and writable fields are computed
  by the resolver's own functions below from \<open>elements\<close>. The three extension lists are
  \<open>specificExtensions\<close>; an extension that declines returns \<open>None\<close>.
\<close>

record resolver =
  contextLookupId :: nat
  acl :: "acl option"
  taskName :: string
  processKey :: string
  model_input :: bool
  elements :: "element list"
  forms :: "form_def list option"
  enums :: "(string \<times> jsobj) list option"
  relationFieldNames :: "string list"
  ownerFields :: "element list"
  stateFields :: "element list"
  listingFilterFields :: "element list"
  listingSortableFields :: "element list"
  idSequenceFields :: "element list"
  dateTimeFields :: "element list"
  modifyListingQuery :: "(query \<Rightarrow> list_input \<Rightarrow> string list \<Rightarrow> query option) list"
  modifyListingFilterQuery :: "(builder \<Rightarrow> jsobj \<Rightarrow> builder option) list"
  modifyListingFilterQueryForField ::
    "(builder \<Rightarrow> element \<Rightarrow> jsval \<Rightarrow> jsobj \<Rightarrow> builder option) list"
  resolveValidationSet :: "form_def \<Rightarrow> validation_set option"

definition AdditionalAllowedGetFields :: "string list" where
  "AdditionalAllowedGetFields = [''id'', ''created'', ''updated'', ''tasks'', ''restrictedFields'']"

text \<open>\<open>_allowedReadFieldKeysForInstance\<close> and \<open>_allowedInputKeysForInstanceInput\<close>.\<close>

definition allowedReadFieldKeysForInstance :: "element list \<Rightarrow> (string \<times> allowed) list" where
  "allowedReadFieldKeysForInstance es =
     fold (\<lambda>e r. if field e \<noteq> [] then AList.update (field e) (FromElement e) r else r) es []"

definition allowedInputKeysForInstanceInput :: "element list \<Rightarrow> (string \<times> allowed) list" where
  "allowedInputKeysForInstanceInput es =
     fold (\<lambda>e r. if field e \<noteq> [] \<and> elem_input e \<noteq> JBool False
                  then AList.update (field e) (FromElement e) r else r) es []"

definition allowedReadFields :: "resolver \<Rightarrow> (string \<times> allowed) list" where
  "allowedReadFields R = allowedReadFieldKeysForInstance (elements R)"

definition allowedInputFields :: "resolver \<Rightarrow> (string \<times> allowed) list" where
  "allowedInputFields R = allowedInputKeysForInstanceInput (elements R)"

definition getAllowedReadFields ::
  "resolver \<Rightarrow> acl_match option \<Rightarrow> bool \<Rightarrow> (string \<times> allowed) list" where
  "getAllowedReadFields R readAcl includeAdditionalFields =
     (let permitted =
            (case readAcl of
               None \<Rightarrow> allowedReadFields R
             | Some m \<Rightarrow>
                 (case allowedFields m of
                    None \<Rightarrow> allowedReadFields R
                  | Some fs \<Rightarrow> pick (allowedReadFields R) fs))
      in if includeAdditionalFields
         then fold (\<lambda>f r. AList.update f AdditionalField r) AdditionalAllowedGetFields permitted
         else permitted)"

text \<open>\<open>_getInstance\<close>: the projection of one entity under the read ACL.\<close>

definition getInstance :: "resolver \<Rightarrow> jsobj \<Rightarrow> string list \<Rightarrow> string list \<Rightarrow> jsobj" where
  "getInstance R instance aclTargets topLevelFields =
     (let aclMatch = map_option (\<lambda>a. a aclTargets Read (Some instance)) (acl R) in
      if (case aclMatch of None \<Rightarrow> False | Some m \<Rightarrow> \<not> allow m)
      then [(''id'', getProp instance ''id''),
            (''restrictedFields'', JArr (map JStr (filter (\<lambda>f. f \<noteq> ''id'') topLevelFields)))]
      else
        (let permitted = getAllowedReadFields R aclMatch True;
             filteredRequestedAllowedFields = filter (hasOwnProperty permitted) topLevelFields;
             r = fold (\<lambda>f r. if getProp instance f \<noteq> JUndefined
                              then AList.update f (getProp instance f) r else r)
                   filteredRequestedAllowedFields [(''id'', getProp instance ''id'')];
             restricted = filter (\<lambda>f. \<not> hasOwnProperty permitted f) topLevelFields
         in if restricted = [] then AList.delete ''restrictedFields'' r
            else AList.update ''restrictedFields'' (JArr (map JStr restricted)) r))"

text \<open>\<open>userToAclTargets\<close> and \<open>_restrictionsApplyToUser\<close>.\<close>

definition userToAclTargets ::
  "resolver \<Rightarrow> identity option \<Rightarrow> jsobj option \<Rightarrow> string list \<times> bool" where
  "userToAclTargets R user ob =
     (case user of
        None \<Rightarrow> ([''anonymous''], False)
      | Some u \<Rightarrow>
          if ident_id u = [] then ([''anonymous''], False)
          else
            (case ob of
               None \<Rightarrow> ([''anonymous'', ''administrator''], False)
             | Some object \<Rightarrow>
                 (let isOwner = list_ex (\<lambda>f. getProp object (joinField f) = JStr (ident_id u))
                                  (ownerFields R)
                  in ([''anonymous'', ''administrator'', ''user''] @
                        (if isOwner then [''owner''] else []), isOwner))))"

definition restrictionsApplyToUser :: "string list option \<Rightarrow> bool \<Rightarrow> bool" where
  "restrictionsApplyToUser restrictions isOwner =
     (case restrictions of
        None \<Rightarrow> True
      | Some rs \<Rightarrow>
          if rs = [] then True
          else if ''all'' \<in> set rs then True
          else (isOwner \<and> ''owner'' \<in> set rs))"

section \<open>The world around the resolver\<close>

text \<open>
  The collaborators of the resolver (database, identity store, workflow engine, pub/sub,
  id sequences, clock) are one explicit state. Every call that leaves the resolver is
  appended to \<open>trace\<close>, so that "nothing was saved" and "no further find" are
  statements about the trace. \<open>collate\<close> is the order the database gives to an
  \<open>ORDER BY\<close>.
\<close>

record task =
  task_id :: string
  taskDefinitionKey :: string

datatype effect =
    DbFind jsval
  | DbQuery query
  | DbSave jsobj
  | DbNextval string
  | IdentityFind string
  | EngineListTasks jsval
  | EngineComplete jsval "jsobj option"
  | EngineStart string jsval jsval "jsobj option"
  | Publish string jsobj

record sys =
  table :: "jsobj list"
  collate :: "order_spec list \<Rightarrow> jsobj \<Rightarrow> jsobj \<Rightarrow> bool"
  identities :: "string \<Rightarrow> identity option"
  engine_tasks :: "jsval \<Rightarrow> task list option"
  engine_ok :: bool
  pubsub :: bool
  sequences :: "string \<Rightarrow> nat"
  now :: jsval
  trace :: "effect list"

text \<open>
  The request context. \<open>ctx_user\<close> is \<open>context.user\<close> (the id of the authenticated
  identity); \<open>instanceLookup\<close> maps a resolver's lookup id to its memo of entities by id
  (a memo entry may hold \<open>null\<close>, which is \<open>None\<close>).
\<close>

record ctx =
  ctx_user :: "string option"
  resolvedUser :: "identity option"
  instanceLookup :: "(nat \<times> (string \<times> jsobj option) list) list"

definition log_effect :: "effect \<Rightarrow> sys \<Rightarrow> sys" where
  "log_effect e s = s\<lparr>trace := trace s @ [e]\<rparr>"

text \<open>
  \<open>modelClass.find(id)\<close> and \<open>object.save()\<close>. \<open>engine_tasks\<close> is the task list the
  engine holds for a business key (\<open>None\<close> when the request fails); \<open>engine_ok\<close> says
  whether the engine accepts a completion or a process start.
\<close>

definition is_null :: "jsval \<Rightarrow> bool" where
  "is_null v = (v = JNull \<or> v = JUndefined)"

definition db_find :: "jsval \<Rightarrow> sys \<Rightarrow> jsobj option \<times> sys" where
  "db_find i s =
     (find (\<lambda>row. \<not> is_null i \<and> getProp row ''id'' = i) (table s), log_effect (DbFind i) s)"

definition db_save :: "jsobj \<Rightarrow> sys \<Rightarrow> sys" where
  "db_save ob s =
     log_effect (DbSave ob)
       (s\<lparr>table := map (\<lambda>row. if getProp row ''id'' = getProp ob ''id'' then ob else row) (table s)\<rparr>)"

definition has_user :: "ctx \<Rightarrow> bool" where
  "has_user c = (case ctx_user c of None \<Rightarrow> False | Some u \<Rightarrow> u \<noteq> [])"

definition resolveUserForContext :: "ctx \<Rightarrow> sys \<Rightarrow> identity option \<times> ctx \<times> sys" where
  "resolveUserForContext c s =
     (case ctx_user c of
        None \<Rightarrow> (None, c, s)
      | Some u \<Rightarrow>
          if u = [] then (None, c, s)
          else
            (case resolvedUser c of
               Some r \<Rightarrow> (Some r, c, s)
             | None \<Rightarrow> (identities s u, c\<lparr>resolvedUser := identities s u\<rparr>,
                         log_effect (IdentityFind u) s)))"

text \<open>
  The memo of a resolver in a context: \<open>context.instanceLookup[this.contextLookupId]\<close>.
  Its keys are entity ids, which are strings; an entity whose \<open>id\<close> is not a string is
  not entered.
\<close>

definition lookup_map :: "resolver \<Rightarrow> ctx \<Rightarrow> (string \<times> jsobj option) list" where
  "lookup_map R c = (case map_of (instanceLookup c) (contextLookupId R) of None \<Rightarrow> [] | Some m \<Rightarrow> m)"

definition set_lookup_map :: "resolver \<Rightarrow> (string \<times> jsobj option) list \<Rightarrow> ctx \<Rightarrow> ctx" where
  "set_lookup_map R m c = c\<lparr>instanceLookup := AList.update (contextLookupId R) m (instanceLookup c)\<rparr>"

definition addInstancesToContext :: "resolver \<Rightarrow> jsobj list \<Rightarrow> ctx \<Rightarrow> ctx" where
  "addInstancesToContext R instances c =
     (if instances = [] then c
      else set_lookup_map R
             (fold (\<lambda>instance m.
                      case getProp instance ''id'' of
                        JStr i \<Rightarrow> if i \<noteq> [] then AList.update i (Some instance) m else m
                      | _ \<Rightarrow> m)
                instances (lookup_map R c)) c)"

definition resolveInstanceUsingContext ::
  "resolver \<Rightarrow> string \<Rightarrow> ctx \<Rightarrow> sys \<Rightarrow> jsobj option \<times> ctx \<times> sys" where
  "resolveInstanceUsingContext R instanceId c s =
     (if \<not> has_user c
      then (fst (db_find (JStr instanceId) s), c, snd (db_find (JStr instanceId) s))
      else
        (let instanceLookupMap = lookup_map R c in
         case map_of instanceLookupMap instanceId of
           Some (Some instance) \<Rightarrow> (Some instance, set_lookup_map R instanceLookupMap c, s)
         | _ \<Rightarrow>
             (fst (db_find (JStr instanceId) s),
              set_lookup_map R
                (AList.update instanceId (fst (db_find (JStr instanceId) s)) instanceLookupMap) c,
              snd (db_find (JStr instanceId) s))))"


section \<open>get\<close>

text \<open>
  \<open>get\<close> hands \<open>new NotFoundError(...)\<close> back with \<open>return\<close>; the GraphQL executor
  treats a returned error object as a failure of the field, so it is an error here.
  Prefetching of relations (\<open>eagerResolves\<close>) does not change which entity is found and
  is left out.
\<close>

definition get ::
  "resolver \<Rightarrow> jsval \<Rightarrow> string list \<Rightarrow> ctx \<Rightarrow> sys \<Rightarrow> (error + jsobj) \<times> ctx \<times> sys" where
  "get R i topLevelFields c s =
     (let found = db_find i s;
          ru = resolveUserForContext c (snd found);
          user = fst ru; c1 = fst (snd ru); s1 = snd (snd ru)
      in case fst found of
           None \<Rightarrow> (Inl (NotFoundError ''Instance not found.''), c1, s1)
         | Some object \<Rightarrow>
             (let c2 = addInstancesToContext R [object] c1;
                  aclTargets = fst (userToAclTargets R user (Some object));
                  isOwner = snd (userToAclTargets R user (Some object))
              in case acl R of
                   None \<Rightarrow> (Inr (getInstance R object aclTargets topLevelFields), c2, s1)
                 | Some a \<Rightarrow>
                     if \<not> allow (a aclTargets Access (Some object))
                     then (Inl (AuthorizationError ''You do not have access to this object.''), c2, s1)
                     else if \<not> restrictionsApplyToUser
                                  (allowedRestrictions (a aclTargets Access (Some object))) isOwner
                     then (Inl (AuthorizationError ''You do not have access to this object.''), c2, s1)
                     else (Inr (getInstance R object aclTargets topLevelFields), c2, s1)))"

section \<open>list\<close>

text \<open>
  What a where-clause means on a row. \<open>AND\<close> binds tighter than \<open>OR\<close>, as in SQL; a
  comparison with \<open>NULL\<close> is not true; an empty group is true (the query builder leaves
  it out, and the resolver attaches groups with \<open>AND\<close> only).
\<close>

fun sql_or_segments :: "bool \<Rightarrow> (conn \<times> bool) list \<Rightarrow> bool" where
  "sql_or_segments acc [] = acc"
| "sql_or_segments acc ((AndC, b) # rest) = sql_or_segments (acc \<and> b) rest"
| "sql_or_segments acc ((OrC, b) # rest) = (acc \<or> sql_or_segments b rest)"

definition sql_combine :: "(conn \<times> bool) list \<Rightarrow> bool" where
  "sql_combine cs = (case cs of [] \<Rightarrow> True | (c, b) # rest \<Rightarrow> sql_or_segments b rest)"

primrec eval_clause :: "jsobj \<Rightarrow> clause \<Rightarrow> bool" where
  "eval_clause row (WhereEq f v) = (\<not> is_null v \<and> getProp row f = v)"
| "eval_clause row (WhereNull f) = is_null (getProp row f)"
| "eval_clause row (WhereIn f vs) = (\<not> is_null (getProp row f) \<and> getProp row f \<in> set vs)"
| "eval_clause row (WhereGroup b) = sql_combine (map (map_prod id (eval_clause row)) b)"

definition eval_builder :: "jsobj \<Rightarrow> builder \<Rightarrow> bool" where
  "eval_builder row b = sql_combine (map (map_prod id (eval_clause row)) b)"

text \<open>\<open>query.where(group)\<close> and \<open>query.andWhere(group)\<close> both attach with \<open>AND\<close>.\<close>

definition qWhere :: "query \<Rightarrow> builder \<Rightarrow> query" where
  "qWhere q g = q\<lparr>wheres := wheres q @ [(AndC, WhereGroup g)]\<rparr>"

definition qAndWhere :: "query \<Rightarrow> builder \<Rightarrow> query" where
  "qAndWhere q g = q\<lparr>wheres := wheres q @ [(AndC, WhereGroup g)]\<rparr>"

text \<open>The per-field extensions: the first one that returns a builder wins.\<close>

fun apply_field_extensions ::
  "(builder \<Rightarrow> element \<Rightarrow> jsval \<Rightarrow> jsobj \<Rightarrow> builder option) list \<Rightarrow>
     builder \<Rightarrow> element \<Rightarrow> jsval \<Rightarrow> jsobj \<Rightarrow> builder option" where
  "apply_field_extensions [] b f v flt = None"
| "apply_field_extensions (ext # exts) b f v flt =
     (case ext b f v flt of Some r \<Rightarrow> Some r | None \<Rightarrow> apply_field_extensions exts b f v flt)"

text \<open>
  The body of \<open>listingFilterFields.forEach\<close>: the state is the builder and the flag
  \<open>addedWhereStatement\<close>.
\<close>

definition filter_field_step ::
  "resolver \<Rightarrow> jsobj \<Rightarrow> element \<Rightarrow> builder \<times> bool \<Rightarrow> builder \<times> bool" where
  "filter_field_step R flt f st =
     (let b = fst st; v = getProp flt (field f) in
      if v = JUndefined then st
      else
        (case apply_field_extensions (modifyListingFilterQueryForField R) b f v flt of
           Some r \<Rightarrow> (r, True)
         | None \<Rightarrow>
             if v \<noteq> JNull then
               (if listingFilterMultiple f then
                  (case v of JArr vs \<Rightarrow> (b @ [(AndC, WhereIn (field f) vs)], True) | _ \<Rightarrow> st)
                else if v = JBool False then
                  (b @ [(AndC, WhereGroup [(AndC, WhereEq (field f) (JBool False)),
                                           (OrC, WhereNull (field f))])], True)
                else (b @ [(AndC, WhereEq (field f) v)], True))
             else (b @ [(AndC, WhereNull (field f))], True)))"

definition filter_extension_step ::
  "jsobj \<Rightarrow> (builder \<Rightarrow> jsobj \<Rightarrow> builder option) \<Rightarrow> builder \<times> bool \<Rightarrow> builder \<times> bool" where
  "filter_extension_step flt ext st = (case ext (fst st) flt of Some r \<Rightarrow> (r, True) | None \<Rightarrow> st)"

definition filter_builder :: "resolver \<Rightarrow> jsobj \<Rightarrow> builder \<times> bool" where
  "filter_builder R flt =
     fold (filter_extension_step flt) (modifyListingFilterQuery R)
       (fold (filter_field_step R flt) (listingFilterFields R) ([], False))"

text \<open>\<open>ownerFieldStatementBuilder\<close>: \<open>where\<close> for the first owner field, \<open>orWhere\<close> after.\<close>

definition ownerFieldStatementBuilder :: "resolver \<Rightarrow> identity \<Rightarrow> builder" where
  "ownerFieldStatementBuilder R user =
     (case ownerFields R of
        [] \<Rightarrow> []
      | f # fs \<Rightarrow> (AndC, WhereEq (joinField f) (JStr (ident_id user))) #
                  map (\<lambda>g. (OrC, WhereEq (joinField g) (JStr (ident_id user)))) fs)"

definition sort_step :: "jsobj \<Rightarrow> element \<Rightarrow> order_spec list \<Rightarrow> order_spec list" where
  "sort_step srt f ords =
     (case getProp srt (field f) of
        JBool v \<Rightarrow> ords @ [\<lparr>ord_column = field f, ord_desc = v\<rparr>]
      | _ \<Rightarrow> ords)"

definition listing_extension_step ::
  "list_input \<Rightarrow> string list \<Rightarrow> (query \<Rightarrow> list_input \<Rightarrow> string list \<Rightarrow> query option) \<Rightarrow> query \<Rightarrow> query" where
  "listing_extension_step inp topLevelFields ext q =
     (case ext q inp topLevelFields of Some newQuery \<Rightarrow> newQuery | None \<Rightarrow> q)"

definition list_limit :: "list_input \<Rightarrow> int" where
  "list_limit inp = (case first inp of None \<Rightarrow> 200 | Some n \<Rightarrow> if n \<noteq> 0 then n else 200)"

definition list_offset :: "list_input \<Rightarrow> int" where
  "list_offset inp = (case offset inp of None \<Rightarrow> 0 | Some n \<Rightarrow> if n \<noteq> 0 then n else 0)"

text \<open>
  The planning part of \<open>list\<close>, from the access check to the last listing extension.
  Directives that prefetch relations do not change the rows, the limit or the
  where-clauses and are left out.
\<close>

definition list_plan ::
  "resolver \<Rightarrow> list_input \<Rightarrow> string list \<Rightarrow> identity option \<Rightarrow> error + query" where
  "list_plan R inp topLevelFields user =
     (let access = map_option (\<lambda>a. a (fst (userToAclTargets R user None)) Access None) (acl R) in
      if (case access of None \<Rightarrow> False | Some m \<Rightarrow> \<not> allow m)
      then Inl (AuthorizationError ''You do not have access to this object.'')
      else
        (let restrictions = (case access of None \<Rightarrow> Some [''all''] | Some m \<Rightarrow> allowedRestrictions m);
             q0 = \<lparr>selects = filter (\<lambda>f. f \<notin> set (relationFieldNames R)) topLevelFields,
                   full_count = True, qlimit = list_limit inp, qoffset = list_offset inp,
                   wheres = [], skipUndefined = False, orderBy = []\<rparr>;
             filtered =
               (case filter_in inp of
                  None \<Rightarrow> (q0, False)
                | Some flt \<Rightarrow>
                    if listingFilterFields R = [] then (q0, False)
                    else (qWhere q0 (fst (filter_builder R flt)), snd (filter_builder R flt)));
             q1 = fst filtered; addedWhereStatement = snd filtered
         in case restrictions of
              None \<Rightarrow> Inl (TypeError ''Cannot read property indexOf of undefined'')
            | Some rs \<Rightarrow>
                if ''all'' \<notin> set rs \<and> user = None
                then Inl (AuthorizationError ''You must be a valid user '')
                else
                  (let q2 =
                         (case user of
                            Some u \<Rightarrow>
                              if ''all'' \<notin> set rs \<and> ownerFields R \<noteq> []
                              then (if addedWhereStatement
                                    then qAndWhere q1 (ownerFieldStatementBuilder R u)
                                    else qWhere q1 (ownerFieldStatementBuilder R u))
                              else q1
                          | None \<Rightarrow> q1);
                       q3 = q2\<lparr>skipUndefined := True\<rparr>;
                       ords =
                         (case sorting inp of
                            None \<Rightarrow> []
                          | Some srt \<Rightarrow> fold (sort_step srt) (listingSortableFields R) []);
                       q4 = (if ords \<noteq> [] then q3\<lparr>orderBy := ords\<rparr> else q3)
                   in Inr (fold (listing_extension_step inp topLevelFields)
                             (modifyListingQuery R) q4))))"

text \<open>
  What the database answers to a query: the rows of the table that satisfy the
  where-clauses, ordered, cut to the page, projected to the selected columns, each with
  the window count of all matching rows as \<open>internalFullCount\<close>. A negative limit or
  offset is an error of the database. The count is a number here; in which JavaScript
  type the database driver hands a 64-bit count over is not decided by the resolver.
\<close>

fun insert_by :: "('a \<Rightarrow> 'a \<Rightarrow> bool) \<Rightarrow> 'a \<Rightarrow> 'a list \<Rightarrow> 'a list" where
  "insert_by le x [] = [x]"
| "insert_by le x (y # ys) = (if le x y then x # y # ys else y # insert_by le x ys)"

definition sort_by :: "('a \<Rightarrow> 'a \<Rightarrow> bool) \<Rightarrow> 'a list \<Rightarrow> 'a list" where
  "sort_by le xs = foldr (insert_by le) xs []"

definition matching_rows :: "query \<Rightarrow> sys \<Rightarrow> jsobj list" where
  "matching_rows q s = filter (\<lambda>row. eval_builder row (wheres q)) (table s)"

definition page_rows :: "query \<Rightarrow> sys \<Rightarrow> jsobj list" where
  "page_rows q s =
     take (nat (qlimit q)) (drop (nat (qoffset q))
       (if orderBy q = [] then matching_rows q s
        else sort_by (collate s (orderBy q)) (matching_rows q s)))"

definition project_row :: "query \<Rightarrow> nat \<Rightarrow> jsobj \<Rightarrow> jsobj" where
  "project_row q n row =
     (if full_count q
      then AList.update ''internalFullCount'' (JNum (int n))
             (filter (\<lambda>kv. fst kv \<in> set (selects q)) row)
      else filter (\<lambda>kv. fst kv \<in> set (selects q)) row)"

definition run_query :: "query \<Rightarrow> sys \<Rightarrow> (error + jsobj list) \<times> sys" where
  "run_query q s =
     (if qlimit q < 0 then (Inl (Error ''LIMIT must not be negative''), log_effect (DbQuery q) s)
      else if qoffset q < 0 then (Inl (Error ''OFFSET must not be negative''), log_effect (DbQuery q) s)
      else (Inr (map (project_row q (length (matching_rows q s))) (page_rows q s)),
            log_effect (DbQuery q) s))"

record page_info =
  totalCount :: jsval
  page_offset :: int
  pageSize :: int

record list_result =
  results :: "jsobj list"
  pageInfo :: page_info

definition list_instances ::
  "resolver \<Rightarrow> list_input \<Rightarrow> string list \<Rightarrow> ctx \<Rightarrow> sys \<Rightarrow> (error + list_result) \<times> ctx \<times> sys" where
  "list_instances R inp topLevelFields c s =
     (let ru = resolveUserForContext c s;
          user = fst ru; c1 = fst (snd ru); s1 = snd (snd ru)
      in case list_plan R inp topLevelFields user of
           Inl e \<Rightarrow> (Inl e, c1, s1)
         | Inr q \<Rightarrow>
             (case fst (run_query q s1) of
                Inl e \<Rightarrow> (Inl e, c1, snd (run_query q s1))
              | Inr r \<Rightarrow>
                  (Inr \<lparr>results =
                          map (\<lambda>object. getInstance R object
                                 (fst (userToAclTargets R user (Some object))) topLevelFields) r,
                        pageInfo =
                          \<lparr>totalCount = (case r of [] \<Rightarrow> JNum 0
                                          | row # rest \<Rightarrow> getProp row ''internalFullCount''),
                           page_offset = list_offset inp,
                           pageSize = list_limit inp\<rparr>\<rparr>,
                   addInstancesToContext R r c1, snd (run_query q s1))))"

section \<open>Events\<close>

definition publishInstanceWasModified :: "resolver \<Rightarrow> jsval \<Rightarrow> sys \<Rightarrow> sys" where
  "publishInstanceWasModified R instanceId s =
     (if pubsub s
      then log_effect (Publish (taskName R @ ''.updated'') [(''modified'' @ taskName R, instanceId)]) s
      else s)"

section \<open>update\<close>

definition access_denied :: "acl \<Rightarrow> string list \<Rightarrow> bool \<Rightarrow> jsobj option \<Rightarrow> bool" where
  "access_denied a aclTargets isOwner object =
     (\<not> allow (a aclTargets Access object) \<or>
      \<not> restrictionsApplyToUser (allowedRestrictions (a aclTargets Access object)) isOwner)"

text \<open>The fields an update may write: \<open>allowedInputFields\<close>, cut down by the write match.\<close>

definition update_allowedFields :: "resolver \<Rightarrow> acl_match option \<Rightarrow> (string \<times> allowed) list" where
  "update_allowedFields R aclWriteMatch =
     (case aclWriteMatch of
        None \<Rightarrow> allowedInputFields R
      | Some m \<Rightarrow>
          (case allowedFields m of
             None \<Rightarrow> allowedInputFields R
           | Some fs \<Rightarrow> pick (allowedInputFields R) fs))"

text \<open>
  \<open>update\<close>. The source does not test whether the entity was found: on a missing entity
  the first allowed key, or else the final \<open>save\<close>, raises a \<open>TypeError\<close>.
\<close>

definition update_instance ::
  "resolver \<Rightarrow> jsobj \<Rightarrow> ctx \<Rightarrow> sys \<Rightarrow> (error + bool) \<times> ctx \<times> sys" where
  "update_instance R inp c s =
     (if \<not> model_input R
      then (Inl (Error ''Model is not defined as an allowing updates.''), c, s)
      else
        (let found = db_find (getProp inp ''id'') s;
             ru = resolveUserForContext c (snd found);
             object = fst found; user = fst ru; c1 = fst (snd ru); s1 = snd (snd ru);
             aclTargets = fst (userToAclTargets R user object);
             isOwner = snd (userToAclTargets R user object)
         in if (case acl R of None \<Rightarrow> False | Some a \<Rightarrow> access_denied a aclTargets isOwner object)
            then (Inl (AuthorizationError ''You do not have access to this object.''), c1, s1)
            else if (case acl R of None \<Rightarrow> False | Some a \<Rightarrow> \<not> allow (a aclTargets Write object))
            then (Inl (AuthorizationError ''You do not have write access to this object.''), c1, s1)
            else
              (let aclWriteMatch = map_option (\<lambda>a. a aclTargets Write object) (acl R);
                   instanceId = getProp inp ''id'';
                   inp1 = AList.delete ''id'' inp;
                   permitted = update_allowedFields R aclWriteMatch;
                   allowedKeys = filter (hasOwnProperty permitted) (Object_keys inp1);
                   restrictedFields =
                     filter (\<lambda>k. \<not> hasOwnProperty permitted k) (Object_keys inp1)
               in case object of
                    None \<Rightarrow>
                      if allowedKeys \<noteq> []
                      then (Inl (TypeError ''Cannot set property of null''), c1, s1)
                      else if restrictedFields \<noteq> []
                      then (Inl (AuthorizationError
                                   (''You do not have write access on the following fields: '' @
                                    join '', '' restrictedFields)), c1, s1)
                      else (Inl (TypeError ''Cannot read property save of null''), c1, s1)
                  | Some ob \<Rightarrow>
                      if restrictedFields \<noteq> []
                      then (Inl (AuthorizationError
                                   (''You do not have write access on the following fields: '' @
                                    join '', '' restrictedFields)), c1, s1)
                      else (Inr True, c1,
                            publishInstanceWasModified R instanceId
                              (db_save (fold (\<lambda>k target. AList.update k (getProp inp1 k) target) allowedKeys ob)
                                 s1)))))"

section \<open>Variables for the workflow engine\<close>

text \<open>\<open>typeof(value) === "string" || typeof(value) === "number" || value === null\<close>.\<close>

fun typeof :: "jsval \<Rightarrow> string" where
  "typeof JUndefined = ''undefined''"
| "typeof JNull = ''object''"
| "typeof (JBool b) = ''boolean''"
| "typeof (JNum n) = ''number''"
| "typeof (JStr x) = ''string''"
| "typeof (JArr xs) = ''object''"
| "typeof (JObj ps) = ''object''"

definition forwardable :: "jsval \<Rightarrow> bool" where
  "forwardable v = (typeof v = ''string'' \<or> typeof v = ''number'' \<or> v = JNull)"

definition variable_step :: "string \<Rightarrow> jsval \<Rightarrow> jsobj \<Rightarrow> jsobj" where
  "variable_step key v vars =
     (if forwardable v then AList.update key (JObj [(''value'', v)]) vars else vars)"

text \<open>The loop of \<open>restart\<close> over the state fields, and \<open>restart\<close>.\<close>

definition restart_variables :: "resolver \<Rightarrow> jsobj \<Rightarrow> jsobj" where
  "restart_variables R instance =
     fold (\<lambda>f vars. variable_step (field f) (getProp instance (field f)) vars) (stateFields R) []"

definition restart ::
  "resolver \<Rightarrow> jsobj \<Rightarrow> jsval \<Rightarrow> sys \<Rightarrow> (error + unit) \<times> sys" where
  "restart R instance startAfterActivityId s =
     (let variables = restart_variables R instance;
          hasVariables = (variables \<noteq> []);
          s1 = log_effect
                 (EngineStart (processKey R) (getProp instance ''id'') startAfterActivityId
                    (if stateFields R \<noteq> [] \<and> hasVariables then Some variables else None)) s
      in if engine_ok s
         then (Inr (), publishInstanceWasModified R (getProp instance ''id'') s1)
         else (Inl (Error ''Unable to restart instance due to business engine error.''), s1))"

text \<open>
  \<open>completeTaskForInstance\<close>: \<open>didModify\<close> is never set, so the entity is never saved.
\<close>

definition completeTaskForInstance_variables :: "jsobj \<Rightarrow> jsobj" where
  "completeTaskForInstance_variables stateChanges =
     fold (\<lambda>key vars. variable_step key (getProp stateChanges key) vars) (Object_keys stateChanges) []"

definition completeTaskForInstance ::
  "resolver \<Rightarrow> jsobj \<Rightarrow> jsval \<Rightarrow> jsobj \<Rightarrow> sys \<Rightarrow> (error + unit) \<times> sys" where
  "completeTaskForInstance R instance taskId stateChanges s =
     (let newVars = completeTaskForInstance_variables stateChanges;
          s1 = log_effect (EngineComplete taskId (Some newVars)) s
      in if engine_ok s
         then (Inr (), publishInstanceWasModified R (getProp instance ''id'') s1)
         else (Inl (Error ''Unable to complete task for instance due to business engine error.''), s1))"

section \<open>completeTask\<close>

datatype CompleteTaskOutcome = Success | ValidatedEmailRequired | ValidationFailed

text \<open>The guards at the head of \<open>completeTask\<close>, up to the resolved outcome.\<close>

definition completeTask_checks :: "resolver \<Rightarrow> jsobj \<Rightarrow> error + form_def \<times> outcome_def" where
  "completeTask_checks R args =
     (if \<not> truthy (getProp args ''id'') \<or> \<not> truthy (getProp args ''taskId'') \<or>
         \<not> truthy (getProp args ''form'') \<or> \<not> truthy (getProp args ''outcome'')
      then Inl (UserInputError
                  ''Complete Task requires an instance id, task id, form and outcome to be supplied'')
      else
        (case (case forms R of
                 None \<Rightarrow> None
               | Some fs \<Rightarrow> find (\<lambda>f. JStr (form f) = getProp args ''form'') fs) of
           None \<Rightarrow> Inl (Error ''Form is not defined for this instance type.'')
         | Some formDefinition \<Rightarrow>
             (case (case outcomes formDefinition of
                      None \<Rightarrow> None
                    | Some os \<Rightarrow> find (\<lambda>oc. JStr (outcome_type oc) = getProp args ''outcome'') os) of
                None \<Rightarrow>
                  Inl (Error ''Outcome is not defined within form definition for this instance type.'')
              | Some outcomeDefinition \<Rightarrow>
                  if outcome_result outcomeDefinition \<noteq> ''Complete''
                  then Inl (Error ''Form outcome result type is not a complete task type.'')
                  else Inr (formDefinition, outcomeDefinition))))"

text \<open>\<open>resolveEnum\<close>; an enum is modelled by its \<open>values\<close> object.\<close>

definition resolveEnum :: "resolver \<Rightarrow> string \<Rightarrow> string \<Rightarrow> jsval" where
  "resolveEnum R enumName enumKey =
     (case enums R of
        None \<Rightarrow> JNull
      | Some es \<Rightarrow> (case map_of es enumName of None \<Rightarrow> JNull | Some vs \<Rightarrow> getProp vs enumKey))"

text \<open>\<open>s.split('.')\<close>.\<close>

fun split_dot :: "string \<Rightarrow> string list" where
  "split_dot [] = [[]]"
| "split_dot (x # xs) =
     (if x = CHR ''.'' then [] # split_dot xs
      else (case split_dot xs of [] \<Rightarrow> [[x]] | p # ps \<Rightarrow> (x # p) # ps))"

text \<open>
  One round of the loop over \<open>outcomeDefinition.state\<close>, building \<open>overriddenValues\<close>.
  An \<open>enum\<close> entry whose \<open>value\<close> is not a string makes \<open>v.value.split\<close> raise.
\<close>

definition overlay_step :: "resolver \<Rightarrow> string \<times> jsval \<Rightarrow> error + jsobj \<Rightarrow> error + jsobj" where
  "overlay_step R kv acc =
     (case acc of
        Inl e \<Rightarrow> Inl e
      | Inr overriddenValues \<Rightarrow>
          (case snd kv of
             JObj v \<Rightarrow>
               if getProp v ''type'' = JStr ''enum'' then
                 (case getProp v ''value'' of
                    JStr path \<Rightarrow>
                      (case split_dot path of
                         [enumName, enumKey] \<Rightarrow>
                           if truthy (resolveEnum R enumName enumKey)
                           then Inr (AList.update (fst kv) (resolveEnum R enumName enumKey)
                                       overriddenValues)
                           else Inr overriddenValues
                       | _ \<Rightarrow> Inr overriddenValues)
                  | _ \<Rightarrow> Inl (TypeError ''v.value.split is not a function''))
               else if getProp v ''type'' = JStr ''simple'' \<and> hasOwnProperty v ''value''
               then Inr (AList.update (fst kv) (getProp v ''value'') overriddenValues)
               else Inr overriddenValues
           | _ \<Rightarrow> Inr overriddenValues))"

definition filteredState_of :: "resolver \<Rightarrow> outcome_def \<Rightarrow> jsval \<Rightarrow> error + jsobj" where
  "filteredState_of R outcomeDefinition state =
     (let allowedKeys = map field (stateFields R);
          picked = (case state of
                      JObj st \<Rightarrow> if allowedKeys \<noteq> [] then pick st allowedKeys else []
                    | _ \<Rightarrow> [])
      in case outcome_state outcomeDefinition of
           None \<Rightarrow> Inr picked
         | Some forced \<Rightarrow>
             (case fold (overlay_step R) forced (Inr []) of
                Inl e \<Rightarrow> Inl e
              | Inr overriddenValues \<Rightarrow> Inr (Object_assign picked overriddenValues)))"

text \<open>
  Id sequences: \<open>TO_CHAR(nextval(seq), '"S"fm000000')\<close> is an \<open>S\<close> and six digits
  (hash marks once the number needs more).
\<close>

definition format_sequence_id :: "nat \<Rightarrow> string" where
  "format_sequence_id n =
     (if n < 1000000
      then CHR ''S'' # map (\<lambda>k. char_of (48 + (n div 10 ^ k) mod 10)) [5, 4, 3, 2, 1, 0]
      else ''S######'')"

definition sequence_step :: "element \<Rightarrow> jsobj \<times> sys \<Rightarrow> jsobj \<times> sys" where
  "sequence_step f st =
     (let n = sequences (snd st) (idSequence f) + 1 in
      (AList.update (field f) (JStr (format_sequence_id n)) (fst st),
       log_effect (DbNextval (idSequence f))
         ((snd st)\<lparr>sequences := (sequences (snd st))(idSequence f := n)\<rparr>)))"

definition idSequencesToAssign :: "resolver \<Rightarrow> outcome_def \<Rightarrow> jsobj \<Rightarrow> element list" where
  "idSequencesToAssign R outcomeDefinition instance =
     (if idSequenceFields R \<noteq> [] \<and> sequenceAssignment outcomeDefinition \<noteq> []
      then filter (\<lambda>f. field f \<in> set (sequenceAssignment outcomeDefinition) \<and>
                       \<not> truthy (getProp instance (field f))) (idSequenceFields R)
      else [])"

definition dateFieldsToAssign :: "resolver \<Rightarrow> outcome_def \<Rightarrow> string list" where
  "dateFieldsToAssign R outcomeDefinition =
     (if dateTimeFields R \<noteq> [] \<and> dateAssignments outcomeDefinition \<noteq> []
      then filter (\<lambda>f. f \<in> set (map field (dateTimeFields R))) (dateAssignments outcomeDefinition)
      else [])"

text \<open>
  The loop that writes the filtered state onto the entity and collects the engine
  variables: the state is the entity, \<open>didModify\<close> and \<open>newVars\<close>.
\<close>

definition state_step :: "jsobj \<Rightarrow> string \<Rightarrow> jsobj \<times> bool \<times> jsobj \<Rightarrow> jsobj \<times> bool \<times> jsobj" where
  "state_step filteredState key st =
     (let v = getProp filteredState key;
          instance = fst st; didModify = fst (snd st); newVars = snd (snd st)
      in (if \<not> strict_eq (getProp instance key) v then AList.update key v instance else instance,
          didModify \<or> \<not> strict_eq (getProp instance key) v,
          variable_step key v newVars))"

definition apply_state :: "jsobj \<Rightarrow> jsobj \<times> bool \<Rightarrow> jsobj \<times> bool \<times> jsobj option" where
  "apply_state filteredState st =
     (if filteredState \<noteq> []
      then (let r = fold (state_step filteredState) (Object_keys filteredState) (fst st, snd st, [])
            in (fst r, fst (snd r), Some (snd (snd r))))
      else (fst st, snd st, None))"

text \<open>
  The checks of \<open>completeTask\<close> on the prefetched entity, subject and tasks, from the
  access ACL to the validation set. \<open>Some\<close> is an early exit (a thrown error or a
  returned sentinel), \<open>None\<close> lets the call go on.
\<close>

definition completeTask_guards ::
  "resolver \<Rightarrow> outcome_def \<Rightarrow> validation_set option \<Rightarrow> identity option \<Rightarrow> jsobj \<Rightarrow> task list \<Rightarrow>
     (error + CompleteTaskOutcome) option" where
  "completeTask_guards R outcomeDefinition validationSet user instance tasks =
     (let aclTargets = fst (userToAclTargets R user (Some instance));
          isOwner = snd (userToAclTargets R user (Some instance));
          tasksAclMatch = map_option (\<lambda>a. a aclTargets Task (Some instance)) (acl R)
      in
      if (case acl R of None \<Rightarrow> False | Some a \<Rightarrow> access_denied a aclTargets isOwner (Some instance))
      then Some (Inl (AuthorizationError ''You do not have access to this object.''))
      else if (case tasksAclMatch of None \<Rightarrow> False | Some m \<Rightarrow> \<not> allow m)
      then Some (Inl (AuthorizationError
                        ''You do not have the rights allowed to destroy this object.''))
      else if requiresValidatedSubmitter outcomeDefinition \<and> user = None
      then Some (Inl (AuthorizationError
                        ''Task completion requires a validated submitter, no user authenticated.''))
      else if requiresValidatedSubmitter outcomeDefinition \<and>
              (case user of None \<Rightarrow> False | Some u \<Rightarrow> \<not> isValidatedEmail u)
      then Some (Inr ValidatedEmailRequired)
      else if (case tasksAclMatch of
                 None \<Rightarrow> False
               | Some m \<Rightarrow>
                   (case allowedTasks m of
                      None \<Rightarrow> False
                    | Some ks \<Rightarrow> filter (\<lambda>t. taskDefinitionKey t \<in> set ks) tasks = []))
      then Some (Inl (AuthorizationError
                        ''You do not have access to the task associated with the instance.''))
      else if (case validationSet of
                 None \<Rightarrow> False
               | Some vs \<Rightarrow> \<not> skipValidations outcomeDefinition \<and> \<not> evaluate vs instance)
      then Some (Inr ValidationFailed)
      else None)"

text \<open>
  The tail of \<open>completeTask\<close>: id sequences, date fields, the filtered state, the save
  and the engine call.
\<close>

definition completeTask_apply ::
  "resolver \<Rightarrow> jsobj \<Rightarrow> outcome_def \<Rightarrow> jsobj \<Rightarrow> jsobj \<Rightarrow> sys \<Rightarrow>
     (error + CompleteTaskOutcome) \<times> sys" where
  "completeTask_apply R args outcomeDefinition instance filteredState s =
     (let toAssign = idSequencesToAssign R outcomeDefinition instance;
          seq = fold sequence_step toAssign (instance, s);
          dates = dateFieldsToAssign R outcomeDefinition;
          dated = fold (\<lambda>f ob. AList.update f (now s) ob) dates (fst seq);
          applied = apply_state filteredState (dated, toAssign \<noteq> [] \<or> dates \<noteq> []);
          s2 = (if fst (snd applied) then db_save (fst applied) (snd seq) else snd seq);
          s3 = log_effect (EngineComplete (getProp args ''taskId'') (snd (snd applied))) s2
      in if engine_ok s
         then (Inr Success, publishInstanceWasModified R (getProp args ''id'') s3)
         else (Inl (Error ''Unable to complete task for instance due to business engine error.''),
               s3))"

text \<open>
  \<open>completeTask\<close> after the guards on its arguments. The three prefetches run
  concurrently in the source; the trace lists them in the order they are started.
\<close>

definition completeTask_run ::
  "resolver \<Rightarrow> jsobj \<Rightarrow> form_def \<Rightarrow> outcome_def \<Rightarrow> ctx \<Rightarrow> sys \<Rightarrow>
     (error + CompleteTaskOutcome) \<times> ctx \<times> sys" where
  "completeTask_run R args formDefinition outcomeDefinition c s =
     (let i = getProp args ''id''; taskId = getProp args ''taskId'';
          found = db_find i s;
          ru = resolveUserForContext c (snd found);
          user = fst ru; c1 = fst (snd ru);
          s1 = log_effect (EngineListTasks i) (snd (snd ru))
      in case engine_tasks s i of
           None \<Rightarrow> (Inl (ExternalError ''task list request failed''), c1, s1)
         | Some listed \<Rightarrow>
             (case fst found of
                None \<Rightarrow> (Inl (Error ''Instance with identifier not found.''), c1, s1)
              | Some instance \<Rightarrow>
                  if filter (\<lambda>t. JStr (task_id t) = taskId) listed = []
                  then (Inl (Error ''Specific task not found for instance.''), c1, s1)
                  else
                    (case completeTask_guards R outcomeDefinition
                            (resolveValidationSet R formDefinition) user instance
                            (filter (\<lambda>t. JStr (task_id t) = taskId) listed) of
                       Some r \<Rightarrow> (r, c1, s1)
                     | None \<Rightarrow>
                         (case filteredState_of R outcomeDefinition (getProp args ''state'') of
                            Inl e \<Rightarrow> (Inl e, c1, s1)
                          | Inr filteredState \<Rightarrow>
                              (fst (completeTask_apply R args outcomeDefinition instance
                                      filteredState s1),
                               c1,
                               snd (completeTask_apply R args outcomeDefinition instance
                                      filteredState s1))))))"

definition completeTask ::
  "resolver \<Rightarrow> jsobj \<Rightarrow> ctx \<Rightarrow> sys \<Rightarrow> (error + CompleteTaskOutcome) \<times> ctx \<times> sys" where
  "completeTask R args c s =
     (case completeTask_checks R args of
        Inl e \<Rightarrow> (Inl e, c, s)
      | Inr fo \<Rightarrow> completeTask_run R args (fst fo) (snd fo) c s)"

section \<open>Notions used in the statements\<close>

text \<open>
  The fields a read may expose: the model's readable fields, cut to the read match's
  \<open>allowedFields\<close> when it has them, together with the fixed additional fields.
\<close>

definition permitted_read_fields :: "resolver \<Rightarrow> acl_match option \<Rightarrow> string set" where
  "permitted_read_fields R m =
     set (filter (\<lambda>f. case m of
                        None \<Rightarrow> True
                      | Some mm \<Rightarrow> (case allowedFields mm of None \<Rightarrow> True | Some fs \<Rightarrow> f \<in> set fs))
            (Object_keys (allowedReadFields R)))
     \<union> set AdditionalAllowedGetFields"

definition read_match :: "resolver \<Rightarrow> string list \<Rightarrow> jsobj \<Rightarrow> acl_match option" where
  "read_match R aclTargets instance = map_option (\<lambda>a. a aclTargets Read (Some instance)) (acl R)"

definition read_denied :: "resolver \<Rightarrow> string list \<Rightarrow> jsobj \<Rightarrow> bool" where
  "read_denied R aclTargets instance =
     (case read_match R aclTargets instance of None \<Rightarrow> False | Some m \<Rightarrow> \<not> allow m)"

text \<open>The ACL targets of the request's subject against one entity.\<close>

definition read_targets :: "resolver \<Rightarrow> ctx \<Rightarrow> sys \<Rightarrow> jsobj \<Rightarrow> string list" where
  "read_targets R c s object =
     fst (userToAclTargets R (fst (resolveUserForContext c s)) (Some object))"

text \<open>
  What the engine is sent for a set of keys read from an object: under each key whose
  value is a string, a number or \<open>null\<close>, the value wrapped as \<open>{value: v}\<close>; nothing
  under any other key.
\<close>

definition string_number_or_null :: "jsval \<Rightarrow> bool" where
  "string_number_or_null v =
     (case v of JStr x \<Rightarrow> True | JNum n \<Rightarrow> True | JNull \<Rightarrow> True | _ \<Rightarrow> False)"

definition marshalled :: "string list \<Rightarrow> (string \<Rightarrow> jsval) \<Rightarrow> string \<Rightarrow> jsval option" where
  "marshalled keys read k =
     (if k \<in> set keys \<and> string_number_or_null (read k)
      then Some (JObj [(''value'', read k)]) else None)"

text \<open>
  The preconditions of \<open>completeTask\<close>: the four required arguments, the form the
  request names and the outcome it names in that form.
\<close>

definition args_supplied :: "jsobj \<Rightarrow> bool" where
  "args_supplied args =
     (truthy (getProp args ''id'') \<and> truthy (getProp args ''taskId'') \<and>
      truthy (getProp args ''form'') \<and> truthy (getProp args ''outcome''))"

definition named_form :: "resolver \<Rightarrow> jsobj \<Rightarrow> form_def option" where
  "named_form R args =
     (case forms R of
        None \<Rightarrow> None
      | Some fs \<Rightarrow> find (\<lambda>f. JStr (form f) = getProp args ''form'') fs)"

definition named_outcome :: "form_def \<Rightarrow> jsobj \<Rightarrow> outcome_def option" where
  "named_outcome fd args =
     (case outcomes fd of
        None \<Rightarrow> None
      | Some os \<Rightarrow> find (\<lambda>oc. JStr (outcome_type oc) = getProp args ''outcome'') os)"

definition is_not_found_error :: "error \<Rightarrow> bool" where
  "is_not_found_error e = (case e of NotFoundError m \<Rightarrow> True | _ \<Rightarrow> False)"


definition is_prefetch :: "effect \<Rightarrow> bool" where
  "is_prefetch e =
     (case e of DbFind i \<Rightarrow> True | IdentityFind u \<Rightarrow> True | EngineListTasks k \<Rightarrow> True
      | _ \<Rightarrow> False)"


text \<open>
  The fields an update may write: the model's input fields, cut to the write match's
  \<open>allowedFields\<close> when it has them. The offending fields of an input are its keys,
  \<open>id\<close> apart, outside that set, in the order of the input.
\<close>

definition write_match :: "resolver \<Rightarrow> identity option \<Rightarrow> jsobj option \<Rightarrow> acl_match option" where
  "write_match R user object =
     map_option (\<lambda>a. a (fst (userToAclTargets R user object)) Write object) (acl R)"

definition writable_fields :: "resolver \<Rightarrow> acl_match option \<Rightarrow> string set" where
  "writable_fields R m =
     set (filter (\<lambda>f. case m of
                        None \<Rightarrow> True
                      | Some mm \<Rightarrow> (case allowedFields mm of None \<Rightarrow> True | Some fs \<Rightarrow> f \<in> set fs))
            (Object_keys (allowedInputFields R)))"

definition offending_fields :: "resolver \<Rightarrow> jsobj \<Rightarrow> acl_match option \<Rightarrow> string list" where
  "offending_fields R inp m =
     filter (\<lambda>k. k \<notin> writable_fields R m) (Object_keys (AList.delete ''id'' inp))"

definition acl_admits_write :: "resolver \<Rightarrow> identity option \<Rightarrow> jsobj option \<Rightarrow> bool" where
  "acl_admits_write R user object =
     (case acl R of
        None \<Rightarrow> True
      | Some a \<Rightarrow>
          \<not> access_denied a (fst (userToAclTargets R user object))
               (snd (userToAclTargets R user object)) object \<and>
          allow (a (fst (userToAclTargets R user object)) Write object))"


text \<open>
  The operations that are handed the request context: \<open>resolveInstanceUsingContext\<close>
  (also on behalf of \<open>resolveRelation\<close>), \<open>get\<close>, \<open>list\<close>, \<open>update\<close> and
  \<open>completeTask\<close>; a request names the resolver it is sent to. \<open>get\<close> and \<open>list\<close> are
  the two that fetch entities and put them into the memo. A run of requests threads the
  context and the world through.
\<close>

datatype request =
    ResolveCall resolver string
  | GetCall resolver jsval "string list"
  | ListCall resolver list_input "string list"
  | UpdateCall resolver jsobj
  | CompleteTaskCall resolver jsobj








text \<open>
  The condition the filter puts on one declared filter field, given the value the input
  holds for it, and the conditions for all declared fields in their order.
\<close>

definition field_condition :: "element \<Rightarrow> jsval \<Rightarrow> clause option" where
  "field_condition f v =
     (if v = JUndefined then None
      else if v = JNull then Some (WhereNull (field f))
      else if listingFilterMultiple f then
        (case v of JArr vs \<Rightarrow> Some (WhereIn (field f) vs) | _ \<Rightarrow> None)
      else if v = JBool False then
        Some (WhereGroup [(AndC, WhereEq (field f) (JBool False)), (OrC, WhereNull (field f))])
      else Some (WhereEq (field f) v))"

definition filter_conditions :: "resolver \<Rightarrow> jsobj \<Rightarrow> builder" where
  "filter_conditions R flt =
     map (Pair AndC)
       (List.map_filter (\<lambda>f. field_condition f (getProp flt (field f))) (listingFilterFields R))"

text \<open>The where-clauses of a listing: the filter's group and the ownership group.\<close>

definition filter_part :: "resolver \<Rightarrow> list_input \<Rightarrow> builder" where
  "filter_part R inp =
     (case filter_in inp of
        None \<Rightarrow> []
      | Some flt \<Rightarrow>
          if listingFilterFields R = [] then []
          else [(AndC, WhereGroup (fst (filter_builder R flt)))])"

definition ownership_part :: "resolver \<Rightarrow> string list \<Rightarrow> identity option \<Rightarrow> builder" where
  "ownership_part R rs user =
     (case user of
        None \<Rightarrow> []
      | Some u \<Rightarrow>
          if ''all'' \<notin> set rs \<and> ownerFields R \<noteq> []
          then [(AndC, WhereGroup (ownerFieldStatementBuilder R u))] else [])"

text \<open>The restriction scopes the access ACL grants for a listing.\<close>

definition list_restrictions :: "resolver \<Rightarrow> identity option \<Rightarrow> string list option" where
  "list_restrictions R user =
     (case acl R of
        None \<Rightarrow> Some [''all'']
      | Some a \<Rightarrow> allowedRestrictions (a (fst (userToAclTargets R user None)) Access None))"






text \<open>A row is owned by a subject when one of the declared owner join fields holds its id.\<close>

definition owned_by :: "resolver \<Rightarrow> identity \<Rightarrow> jsobj \<Rightarrow> bool" where
  "owned_by R u row = list_ex (\<lambda>f. getProp row (joinField f) = JStr (ident_id u)) (ownerFields R)"

text \<open>
  The value one entry of \<open>outcome.state\<close> forces: an \<open>enum\<close> entry with the path
  \<open>E.K\<close> forces \<open>enums[E].values[K]\<close> when that resolves to a truthy value, a
  \<open>simple\<close> entry with a \<open>value\<close> forces that value, anything else forces nothing.
\<close>

definition forced_entry :: "resolver \<Rightarrow> jsval \<Rightarrow> jsval option" where
  "forced_entry R v =
     (case v of
        JObj ps \<Rightarrow>
          if getProp ps ''type'' = JStr ''enum'' then
            (case getProp ps ''value'' of
               JStr path \<Rightarrow>
                 (case split_dot path of
                    [enumName, enumKey] \<Rightarrow>
                      if truthy (resolveEnum R enumName enumKey)
                      then Some (resolveEnum R enumName enumKey) else None
                  | _ \<Rightarrow> None)
             | _ \<Rightarrow> None)
          else if getProp ps ''type'' = JStr ''simple'' \<and> hasOwnProperty ps ''value''
          then Some (getProp ps ''value'') else None
      | _ \<Rightarrow> None)"

definition forced_value :: "resolver \<Rightarrow> outcome_def \<Rightarrow> string \<Rightarrow> jsval option" where
  "forced_value R od k =
     (case outcome_state od of
        None \<Rightarrow> None
      | Some forced \<Rightarrow> (case map_of forced k of None \<Rightarrow> None | Some v \<Rightarrow> forced_entry R v))"

text \<open>The client's value for a key: present only for declared state fields.\<close>

definition client_value :: "resolver \<Rightarrow> jsval \<Rightarrow> string \<Rightarrow> jsval option" where
  "client_value R state k =
     (case state of
        JObj st \<Rightarrow> if k \<in> set (map field (stateFields R)) then map_of st k else None
      | _ \<Rightarrow> None)"

text \<open>
  The fields of an entity that an outcome assigns apart from the state: the id-sequence
  fields that are still empty, and the date fields.
\<close>

definition assigned_fields :: "resolver \<Rightarrow> outcome_def \<Rightarrow> jsobj \<Rightarrow> string list" where
  "assigned_fields R od inst =
     map field (idSequencesToAssign R od inst) @ dateFieldsToAssign R od"

text \<open>
  An outcome is well formed when its forced state is an object (no key twice); an entity
  holds a state when it has the state's value under each of the state's keys.
\<close>

definition wellformed_outcome :: "outcome_def \<Rightarrow> bool" where
  "wellformed_outcome od =
     (case outcome_state od of None \<Rightarrow> True | Some forced \<Rightarrow> distinct (Object_keys forced))"

definition holds_state :: "jsobj \<Rightarrow> jsobj \<Rightarrow> bool" where
  "holds_state ob fs = list_all (\<lambda>k. getProp ob k = getProp fs k) (Object_keys fs)"

section \<open>An example installation\<close>

text \<open>
  A submission model with a title, a cost figure and a phase, two stored submissions and
  one registered identity. The statements below are exercised on it.
\<close>

definition plain_element :: "string \<Rightarrow> element" where
  "plain_element f =
     \<lparr>field = f, elem_input = JUndefined, joinField = [], listingFilterMultiple = False,
      idSequence = []\<rparr>"

definition example_resolver :: resolver where
  "example_resolver =
     \<lparr>contextLookupId = 1, acl = None, taskName = ''Submission'', processKey = ''submission'',
      model_input = True,
      elements = [plain_element ''title'', plain_element ''secretCost'', plain_element ''phase''],
      forms = None, enums = None, relationFieldNames = [],
      ownerFields = [(plain_element ''submitter'')\<lparr>joinField := ''submitterId''\<rparr>],
      stateFields = [plain_element ''phase''],
      listingFilterFields = [], listingSortableFields = [], idSequenceFields = [],
      dateTimeFields = [], modifyListingQuery = [], modifyListingFilterQuery = [],
      modifyListingFilterQueryForField = [], resolveValidationSet = (\<lambda>f. None)\<rparr>"

definition acl_title_only :: acl where
  "acl_title_only targets action object =
     \<lparr>allow = True, allowedFields = Some [''title''], allowedRestrictions = Some [''all''],
      allowedTasks = None\<rparr>"

definition acl_no_read :: acl where
  "acl_no_read targets action object =
     \<lparr>allow = (action \<noteq> Read), allowedFields = None, allowedRestrictions = Some [''all''],
      allowedTasks = None\<rparr>"

definition row_A :: jsobj where
  "row_A = [(''id'', JStr ''A''), (''title'', JStr ''Paper''), (''secretCost'', JNum 7),
            (''phase'', JStr ''draft''), (''submitterId'', JStr ''u1'')]"

definition row_B :: jsobj where
  "row_B = [(''id'', JStr ''B''), (''title'', JStr ''Other''), (''secretCost'', JNum 9),
            (''phase'', JStr ''draft''), (''submitterId'', JStr ''u2'')]"

definition example_sys :: sys where
  "example_sys =
     \<lparr>table = [row_A, row_B], collate = (\<lambda>ords a b. True),
      identities = (\<lambda>u. if u = ''u1'' then Some \<lparr>ident_id = ''u1'', isValidatedEmail = False\<rparr>
                         else None),
      engine_tasks = (\<lambda>k. if k = JStr ''A''
                           then Some [\<lparr>task_id = ''T'', taskDefinitionKey = ''curate''\<rparr>]
                           else Some []),
      engine_ok = True, pubsub = True, sequences = (\<lambda>n. 41), now = JStr ''2020-01-01T00:00:00Z'',
      trace = []\<rparr>"

definition example_ctx :: ctx where
  "example_ctx = \<lparr>ctx_user = Some ''u1'', resolvedUser = None, instanceLookup = []\<rparr>"

definition anonymous_ctx :: ctx where
  "anonymous_ctx = \<lparr>ctx_user = None, resolvedUser = None, instanceLookup = []\<rparr>"

definition empty_list_input :: list_input where
  "empty_list_input = \<lparr>first = None, offset = None, filter_in = None, sorting = None\<rparr>"

text \<open>
  A curation form whose \<open>accept\<close> outcome forces the phase to \<open>Phase.Published\<close>, with
  an outcome that only saves and one that needs a validated submitter, and a request that
  completes task \<open>T\<close> of submission \<open>A\<close> with \<open>accept\<close>.
\<close>

definition accept_outcome :: outcome_def where
  "accept_outcome =
     \<lparr>outcome_type = ''accept'', outcome_result = ''Complete'',
      requiresValidatedSubmitter = False, skipValidations = False,
      outcome_state = Some [(''phase'', JObj [(''type'', JStr ''enum''),
                                             (''value'', JStr ''Phase.Published'')])],
      sequenceAssignment = [], dateAssignments = []\<rparr>"

definition curate_form :: form_def where
  "curate_form =
     \<lparr>form = ''curate'',
      outcomes = Some [accept_outcome,
                       accept_outcome\<lparr>outcome_type := ''defer'', outcome_result := ''Save''\<rparr>,
                       accept_outcome\<lparr>outcome_type := ''submit'',
                                      requiresValidatedSubmitter := True\<rparr>]\<rparr>"

definition workflow_resolver :: resolver where
  "workflow_resolver =
     example_resolver
       \<lparr>forms := Some [curate_form],
        enums := Some [(''Phase'', [(''Published'', JStr ''published'')])],
        stateFields := [plain_element ''phase'', plain_element ''flag'', plain_element ''round'',
                        plain_element ''tags'', plain_element ''note'']\<rparr>"

definition accept_args :: jsobj where
  "accept_args =
     [(''id'', JStr ''A''), (''taskId'', JStr ''T''), (''form'', JStr ''curate''),
      (''outcome'', JStr ''accept''),
      (''state'', JObj [(''phase'', JStr ''hacked''), (''flag'', JBool True),
                        (''round'', JNum 2), (''title'', JStr ''x'')])]"

definition mixed_instance :: jsobj where
  "mixed_instance =
     [(''id'', JStr ''A''), (''phase'', JStr ''draft''), (''flag'', JBool True),
      (''round'', JNum 2), (''tags'', JArr [JStr ''a'']), (''note'', JNull)]"

text \<open>Requests that name an unknown form, an unknown outcome, a saving outcome, no task.\<close>

definition unknown_form_args :: jsobj where
  "unknown_form_args =
     [(''id'', JStr ''A''), (''taskId'', JStr ''T''), (''form'', JStr ''review''),
      (''outcome'', JStr ''accept'')]"

definition unknown_outcome_args :: jsobj where
  "unknown_outcome_args =
     [(''id'', JStr ''A''), (''taskId'', JStr ''T''), (''form'', JStr ''curate''),
      (''outcome'', JStr ''reject'')]"

definition defer_args :: jsobj where
  "defer_args =
     [(''id'', JStr ''A''), (''taskId'', JStr ''T''), (''form'', JStr ''curate''),
      (''outcome'', JStr ''defer'')]"

definition no_task_args :: jsobj where
  "no_task_args = [(''id'', JStr ''A''), (''form'', JStr ''curate''), (''outcome'', JStr ''accept'')]"



text \<open>An update of submission \<open>A\<close> that also writes the cost figure and the phase.\<close>

definition cost_update :: jsobj where
  "cost_update =
     [(''id'', JStr ''A''), (''title'', JStr ''x''), (''secretCost'', JNum 1),
      (''phase'', JStr ''published'')]"

text \<open>
  A resolver with five declared filter fields, one of them multiple, and a filter that
  also carries an undeclared key.
\<close>

definition filter_resolver :: resolver where
  "filter_resolver =
     example_resolver
       \<lparr>listingFilterFields :=
          [plain_element ''phase'', plain_element ''secretCost'', plain_element ''title'',
           (plain_element ''keywords'')\<lparr>listingFilterMultiple := True\<rparr>,
           plain_element ''archived'']\<rparr>"

definition example_filter :: jsobj where
  "example_filter =
     [(''archived'', JBool False), (''bogus'', JNum 1), (''phase'', JStr ''draft''),
      (''title'', JNull), (''keywords'', JArr [JStr ''a'', JStr ''b''])]"

text \<open>An ACL that grants every action in the scope \<open>owner\<close> only.\<close>

definition acl_owner_scope :: acl where
  "acl_owner_scope targets action object =
     \<lparr>allow = True, allowedFields = None, allowedRestrictions = Some [''owner''],
      allowedTasks = None\<rparr>"

section \<open>Basic facts\<close>

lemmas example_defs =
  example_resolver_def plain_element_def acl_title_only_def acl_no_read_def row_A_def row_B_def
  example_sys_def example_ctx_def anonymous_ctx_def empty_list_input_def

lemmas model_defs =
  getInstance_def getAllowedReadFields_def allowedReadFields_def allowedReadFieldKeysForInstance_def
  AdditionalAllowedGetFields_def pick_def hasOwnProperty_def getProp_def Object_keys_def
  read_match_def read_denied_def read_targets_def userToAclTargets_def resolveUserForContext_def
  log_effect_def db_find_def is_null_def restrictionsApplyToUser_def

lemmas list_defs = list_instances_def list_plan_def run_query_def
     list_limit_def list_offset_def page_rows_def matching_rows_def eval_builder_def sql_combine_def
     project_row_def addInstancesToContext_def

lemmas workflow_defs =
  accept_outcome_def curate_form_def workflow_resolver_def accept_args_def mixed_instance_def

lemma keys_update: "fst ` set (AList.update k v al) = insert k (fst ` set al)"
proof -
  have "set (map fst (AList.update k v al)) = insert k (set (map fst al))"
    unfolding update_keys by auto
  then show ?thesis by simp
qed

lemma keys_delete: "fst ` set (AList.delete k al) = fst ` set al - {k}"
proof -
  have "set (map fst (AList.delete k al)) = set (map fst al) - {k}"
    unfolding delete_keys by auto
  then show ?thesis by simp
qed

lemma keys_fold_cond_update:
  "fst ` set (fold (\<lambda>f r. if P f then AList.update f (g f) r else r) fs acc)
     \<subseteq> fst ` set acc \<union> set fs"
proof (induction fs arbitrary: acc)
  case Nil
  then show ?case by simp
next
  case (Cons f fs)
  have "fst ` set (if P f then AList.update f (g f) acc else acc) \<subseteq> insert f (fst ` set acc)"
    by (simp add: keys_update subset_insertI)
  with Cons [of "if P f then AList.update f (g f) acc else acc"] show ?case
    by (simp only: fold_simps list.set) blast
qed

lemma keys_fold_update_all:
  "fst ` set (fold (\<lambda>f r. AList.update f (g f) r) fs acc) = fst ` set acc \<union> set fs"
proof (induction fs arbitrary: acc)
  case Nil
  then show ?case by simp
next
  case (Cons f fs)
  show ?case by (simp add: Cons keys_update)
qed

lemma keys_pick_fold:
  "fst ` set (fold (\<lambda>p r. case map_of ob p of None \<Rightarrow> r | Some v \<Rightarrow> AList.update p v r) ps acc)
     = fst ` set acc \<union> {p \<in> set ps. p \<in> fst ` set ob}"
proof (induction ps arbitrary: acc)
  case Nil
  then show ?case by simp
next
  case (Cons p ps)
  show ?case
  proof (cases "map_of ob p")
    case None
    then have "p \<notin> fst ` set ob" by (simp add: map_of_eq_None_iff)
    with None Cons show ?thesis by auto
  next
    case (Some v)
    then have "p \<in> fst ` set ob" by (metis map_of_eq_None_iff option.distinct(1))
    with Some show ?thesis by (simp add: Cons keys_update) blast
  qed
qed

lemma keys_pick: "fst ` set (pick ob ps) = {p \<in> set ps. p \<in> fst ` set ob}"
  using keys_pick_fold [of ob ps "[]"] by (simp add: pick_def)

lemma find_in_set: "find P xs = Some x \<Longrightarrow> x \<in> set xs"
  by (induction xs) (auto split: if_splits)

lemma resolveUser_log:
  "fst (resolveUserForContext c (log_effect e s)) = fst (resolveUserForContext c s)"
  by (simp add: resolveUserForContext_def log_effect_def split: option.splits)

section \<open>Reads expose permitted fields only\<close>

lemma keys_getAllowedReadFields:
  "fst ` set (getAllowedReadFields R m True) = permitted_read_fields R m"
  by (auto simp: getAllowedReadFields_def permitted_read_fields_def Let_def keys_fold_update_all
      keys_pick Object_keys_def split: option.splits)

lemma getInstance_keys:
  "set (Object_keys (getInstance R instance aclTargets tlf))
     \<subseteq> permitted_read_fields R (map_option (\<lambda>a. a aclTargets Read (Some instance)) (acl R))"
proof -
  let ?m = "map_option (\<lambda>a. a aclTargets Read (Some instance)) (acl R)"
  let ?P = "permitted_read_fields R ?m"
  have add: "''id'' \<in> ?P" "''restrictedFields'' \<in> ?P"
    by (simp_all add: permitted_read_fields_def AdditionalAllowedGetFields_def)
  let ?r = "fold (\<lambda>f r. if getProp instance f \<noteq> JUndefined
                              then AList.update f (getProp instance f) r else r)
                   (filter (hasOwnProperty (getAllowedReadFields R ?m True)) tlf)
                   [(''id'', getProp instance ''id'')]"
  have loop: "fst ` set ?r \<subseteq> ?P"
    using keys_fold_cond_update [of "\<lambda>f. getProp instance f \<noteq> JUndefined" "getProp instance"
        "filter (hasOwnProperty (getAllowedReadFields R ?m True)) tlf"
        "[(''id'', getProp instance ''id'')]"]
      add keys_getAllowedReadFields [of R ?m]
    by (auto simp: hasOwnProperty_def)
  have del: "fst ` set (AList.delete ''restrictedFields'' ?r) \<subseteq> ?P"
    using loop by (auto simp: keys_delete)
  have upd: "fst ` set (AList.update ''restrictedFields'' v ?r) \<subseteq> ?P" for v
    using loop add by (auto simp: keys_update)
  have deny: "fst ` set [(''id'', getProp instance ''id''), (''restrictedFields'', w)] \<subseteq> ?P" for w
    using add by simp
  show ?thesis
    unfolding getInstance_def Object_keys_def Let_def set_map
    using del upd deny by (simp split: option.splits)
qed

lemma getInstance_denied:
  "read_denied R aclTargets instance \<Longrightarrow>
     getInstance R instance aclTargets tlf =
       [(''id'', getProp instance ''id''),
        (''restrictedFields'', JArr (map JStr (filter (\<lambda>f. f \<noteq> ''id'') tlf)))]"
  by (simp add: read_denied_def read_match_def getInstance_def split: option.splits)

lemma get_result:
  "fst (get R i tlf c s) = Inr dto \<Longrightarrow>
     \<exists>object \<in> set (table s). dto = getInstance R object (read_targets R c s object) tlf"
  unfolding get_def Let_def read_targets_def
  by (auto simp: db_find_def resolveUser_log split: option.splits if_splits dest: find_in_set)

lemma list_result:
  "fst (list_instances R inp tlf c s) = Inr res \<Longrightarrow> dto \<in> set (results res) \<Longrightarrow>
     \<exists>row. dto = getInstance R row (read_targets R c s row) tlf"
  unfolding list_instances_def Let_def read_targets_def
  by (auto split: sum.splits)

text \<open>
  Claim C1. Whatever \<open>_getInstance\<close> returns has its fields among the readable fields of
  the model, cut to the read match's \<open>allowedFields\<close> when they are set, and the five
  additional fields. When the read ACL denies, the result is exactly the id and the list
  of the requested fields other than \<open>id\<close>. Every result of \<open>get\<close>, and every entry of
  the results of \<open>list\<close>, is such a projection.
\<close>

theorem read_projection_within_permitted_fields:
  "set (Object_keys (getInstance R instance aclTargets tlf))
     \<subseteq> permitted_read_fields R (read_match R aclTargets instance)
   \<and> (read_denied R aclTargets instance \<longrightarrow>
        getInstance R instance aclTargets tlf =
          [(''id'', getProp instance ''id''),
           (''restrictedFields'', JArr (map JStr (filter (\<lambda>f. f \<noteq> ''id'') tlf)))])
   \<and> (\<forall>dto. fst (get R i tlf c s) = Inr dto \<longrightarrow>
        (\<exists>object \<in> set (table s).
           dto = getInstance R object (read_targets R c s object) tlf \<and>
           set (Object_keys dto)
             \<subseteq> permitted_read_fields R (read_match R (read_targets R c s object) object)))
   \<and> (\<forall>res dto. fst (list_instances R inp tlf c s) = Inr res \<and> dto \<in> set (results res) \<longrightarrow>
        (\<exists>row.
           dto = getInstance R row (read_targets R c s row) tlf \<and>
           set (Object_keys dto)
             \<subseteq> permitted_read_fields R (read_match R (read_targets R c s row) row)))"
proof (intro conjI allI impI)
  show "set (Object_keys (getInstance R instance aclTargets tlf))
     \<subseteq> permitted_read_fields R (read_match R aclTargets instance)"
    unfolding read_match_def by (rule getInstance_keys)
next
  assume "read_denied R aclTargets instance"
  then show "getInstance R instance aclTargets tlf =
          [(''id'', getProp instance ''id''),
           (''restrictedFields'', JArr (map JStr (filter (\<lambda>f. f \<noteq> ''id'') tlf)))]"
    by (rule getInstance_denied)
next
  fix dto
  assume "fst (get R i tlf c s) = Inr dto"
  then obtain object where ob: "object \<in> set (table s)"
    "dto = getInstance R object (read_targets R c s object) tlf"
    using get_result by blast
  have "set (Object_keys dto)
      \<subseteq> permitted_read_fields R (read_match R (read_targets R c s object) object)"
    unfolding ob(2) read_match_def by (rule getInstance_keys)
  with ob show "\<exists>object \<in> set (table s).
           dto = getInstance R object (read_targets R c s object) tlf \<and>
           set (Object_keys dto)
             \<subseteq> permitted_read_fields R (read_match R (read_targets R c s object) object)"
    by blast
next
  fix res dto
  assume "fst (list_instances R inp tlf c s) = Inr res \<and> dto \<in> set (results res)"
  then obtain row where row: "dto = getInstance R row (read_targets R c s row) tlf"
    using list_result by blast
  have "set (Object_keys dto)
      \<subseteq> permitted_read_fields R (read_match R (read_targets R c s row) row)"
    unfolding row read_match_def by (rule getInstance_keys)
  with row show "\<exists>row.
           dto = getInstance R row (read_targets R c s row) tlf \<and>
           set (Object_keys dto)
             \<subseteq> permitted_read_fields R (read_match R (read_targets R c s row) row)"
    by blast
qed

theorem read_projection_witness:
  "set (Object_keys (getInstance (example_resolver\<lparr>acl := Some acl_title_only\<rparr>) row_A
          [''anonymous''] [''id'', ''title'', ''secretCost'']))
     \<subseteq> permitted_read_fields (example_resolver\<lparr>acl := Some acl_title_only\<rparr>)
          (read_match (example_resolver\<lparr>acl := Some acl_title_only\<rparr>) [''anonymous''] row_A)
   \<and> getInstance (example_resolver\<lparr>acl := Some acl_title_only\<rparr>) row_A
          [''anonymous''] [''id'', ''title'', ''secretCost'']
       = [(''id'', JStr ''A''), (''title'', JStr ''Paper''),
          (''restrictedFields'', JArr [JStr ''secretCost''])]
   \<and> read_denied (example_resolver\<lparr>acl := Some acl_no_read\<rparr>) [''anonymous''] row_A
   \<and> getInstance (example_resolver\<lparr>acl := Some acl_no_read\<rparr>) row_A
          [''anonymous''] [''id'', ''title'', ''secretCost'']
       = [(''id'', JStr ''A''), (''restrictedFields'', JArr [JStr ''title'', JStr ''secretCost''])]
   \<and> (\<exists>dto. fst (get (example_resolver\<lparr>acl := Some acl_title_only\<rparr>) (JStr ''A'')
                   [''id'', ''title'', ''secretCost''] example_ctx example_sys) = Inr dto
           \<and> set (Object_keys dto) = {''id'', ''title'', ''restrictedFields''}
           \<and> (\<exists>object \<in> set (table example_sys).
                 set (Object_keys dto)
                   \<subseteq> permitted_read_fields (example_resolver\<lparr>acl := Some acl_title_only\<rparr>)
                        (read_match (example_resolver\<lparr>acl := Some acl_title_only\<rparr>)
                           (read_targets (example_resolver\<lparr>acl := Some acl_title_only\<rparr>)
                              example_ctx example_sys object) object)))
   \<and> (\<exists>res dto. fst (list_instances (example_resolver\<lparr>acl := Some acl_title_only\<rparr>)
                       empty_list_input [''id'', ''title'', ''secretCost'']
                       example_ctx example_sys) = Inr res
           \<and> dto \<in> set (results res)
           \<and> (\<exists>row. set (Object_keys dto)
                   \<subseteq> permitted_read_fields (example_resolver\<lparr>acl := Some acl_title_only\<rparr>)
                        (read_match (example_resolver\<lparr>acl := Some acl_title_only\<rparr>)
                           (read_targets (example_resolver\<lparr>acl := Some acl_title_only\<rparr>)
                              example_ctx example_sys row) row)))"
proof -
  let ?R = "example_resolver\<lparr>acl := Some acl_title_only\<rparr>"
  let ?D = "example_resolver\<lparr>acl := Some acl_no_read\<rparr>"
  let ?tlf = "[''id'', ''title'', ''secretCost'']"
  let ?dto = "[(''id'', JStr ''A''), (''title'', JStr ''Paper''),
               (''restrictedFields'', JArr [JStr ''secretCost''])]"
  note allow = read_projection_within_permitted_fields
    [of ?R row_A "[''anonymous'']" ?tlf "JStr ''A''" example_ctx example_sys empty_list_input]
  note deny = read_projection_within_permitted_fields
    [of ?D row_A "[''anonymous'']" ?tlf "JStr ''A''" example_ctx example_sys empty_list_input]
  have denied: "read_denied ?D [''anonymous''] row_A"
    by (simp add: example_defs model_defs)
  have g: "fst (get ?R (JStr ''A'') ?tlf example_ctx example_sys) = Inr ?dto"
    by (simp add: example_defs model_defs Let_def get_def addInstancesToContext_def)
  have l: "fst (list_instances ?R empty_list_input ?tlf example_ctx example_sys)
     = Inr \<lparr>results = [?dto, [(''id'', JStr ''B''), (''title'', JStr ''Other''),
                         (''restrictedFields'', JArr [JStr ''secretCost''])]],
            pageInfo = \<lparr>totalCount = JNum 2, page_offset = 0, pageSize = 200\<rparr>\<rparr>"
    by (simp add: example_defs model_defs Let_def list_defs)
  have c1: "set (Object_keys (getInstance ?R row_A [''anonymous''] ?tlf))
     \<subseteq> permitted_read_fields ?R (read_match ?R [''anonymous''] row_A)"
    using allow by blast
  have c2: "getInstance ?R row_A [''anonymous''] ?tlf = ?dto"
    by (simp add: example_defs model_defs Let_def)
  have c4: "getInstance ?D row_A [''anonymous''] ?tlf
       = [(''id'', JStr ''A''), (''restrictedFields'', JArr [JStr ''title'', JStr ''secretCost''])]"
    using deny denied by (simp add: row_A_def getProp_def)
  have c5: "\<exists>object \<in> set (table example_sys).
                 set (Object_keys ?dto)
                   \<subseteq> permitted_read_fields ?R (read_match ?R
                           (read_targets ?R example_ctx example_sys object) object)"
    using allow g by blast
  have c6: "\<exists>row. set (Object_keys ?dto)
                   \<subseteq> permitted_read_fields ?R (read_match ?R
                           (read_targets ?R example_ctx example_sys row) row)"
    using allow l by (metis list.set_intros(1) list_result.select_convs(1))
  have k: "set (Object_keys ?dto) = {''id'', ''title'', ''restrictedFields''}"
    by (simp add: Object_keys_def)
  show ?thesis
    apply (intro conjI)
        apply (rule c1)
       apply (rule c2)
      apply (rule denied)
     apply (rule c4)
    using g k c5 apply blast
    using l c6 by (metis list.set_intros(1) list_result.select_convs(1))
qed

section \<open>Variables sent to the engine\<close>

lemma forwardable_iff:
  "forwardable v \<longleftrightarrow> (\<exists>x. v = JStr x) \<or> (\<exists>n. v = JNum n) \<or> v = JNull"
  by (cases v) (simp_all add: forwardable_def)

lemma map_of_fold_variable_step:
  "map_of (fold (\<lambda>key vars. variable_step key (g key) vars) ks acc) k =
     (if k \<in> set ks \<and> forwardable (g k) then Some (JObj [(''value'', g k)]) else map_of acc k)"
proof (induction ks arbitrary: acc)
  case Nil
  then show ?case by simp
next
  case (Cons a ks)
  have "map_of (variable_step a (g a) acc) k =
          (if k = a \<and> forwardable (g a) then Some (JObj [(''value'', g a)]) else map_of acc k)"
    by (simp add: variable_step_def update_conv')
  with Cons [of "variable_step a (g a) acc"] show ?case
    by (simp only: fold_simps list.set) auto
qed

lemma restart_variables_lookup:
  "map_of (restart_variables R instance) k =
     (if k \<in> set (map field (stateFields R)) \<and> forwardable (getProp instance k)
      then Some (JObj [(''value'', getProp instance k)]) else None)"
proof -
  have "restart_variables R instance =
          fold (\<lambda>key vars. variable_step key (getProp instance key) vars)
            (map field (stateFields R)) []"
    by (simp add: restart_variables_def fold_map comp_def)
  then show ?thesis
    using map_of_fold_variable_step [of "getProp instance" "map field (stateFields R)" "[]" k]
    by simp
qed

lemma completeTaskForInstance_variables_lookup:
  "map_of (completeTaskForInstance_variables sc) k =
     (if k \<in> set (Object_keys sc) \<and> forwardable (getProp sc k)
      then Some (JObj [(''value'', getProp sc k)]) else None)"
  unfolding completeTaskForInstance_variables_def
  using map_of_fold_variable_step [of "getProp sc" "Object_keys sc" "[]" k] by simp

lemma fold_state_step_vars:
  "snd (snd (fold (state_step fs) ks st)) =
     fold (\<lambda>key vars. variable_step key (getProp fs key) vars) ks (snd (snd st))"
  by (induction ks arbitrary: st) (simp_all add: state_step_def Let_def)

lemma apply_state_variables:
  "snd (snd (apply_state fs st)) =
     (if fs = [] then None else Some (completeTaskForInstance_variables fs))"
  by (simp add: apply_state_def Let_def fold_state_step_vars completeTaskForInstance_variables_def)

lemma trace_publish: "set (trace s) \<subseteq> set (trace (publishInstanceWasModified R i s))"
  by (auto simp: publishInstanceWasModified_def log_effect_def)

lemma trace_log: "trace (log_effect e s) = trace s @ [e]"
  by (simp add: log_effect_def)

lemma in_trace_publish:
  "e \<in> set (trace s) \<Longrightarrow> e \<in> set (trace (publishInstanceWasModified R i s))"
  by (simp add: publishInstanceWasModified_def trace_log)

lemma completeTask_apply_engine_call:
  "EngineComplete (getProp args ''taskId'')
     (if fs = [] then None else Some (completeTaskForInstance_variables fs))
     \<in> set (trace (snd (completeTask_apply R args od instance fs s)))"
  unfolding completeTask_apply_def Let_def
  by (simp add: apply_state_variables trace_log in_trace_publish)

lemma guards_not_success: "completeTask_guards R od vs u inst ts \<noteq> Some (Inr Success)"
  unfolding completeTask_guards_def Let_def by simp

lemma completeTask_run_success:
  assumes ok: "fst (completeTask_run R args fd od c s) = Inr Success"
  shows "\<exists>instance fs.
           fst (db_find (getProp args ''id'') s) = Some instance \<and>
           filteredState_of R od (getProp args ''state'') = Inr fs \<and>
           snd (snd (completeTask_run R args fd od c s)) =
             snd (completeTask_apply R args od instance fs
                    (log_effect (EngineListTasks (getProp args ''id''))
                       (snd (snd (resolveUserForContext c (snd (db_find (getProp args ''id'') s)))))))"
proof -
  obtain listed where l: "engine_tasks s (getProp args ''id'') = Some listed"
    using ok by (cases "engine_tasks s (getProp args ''id'')") (simp_all add: completeTask_run_def Let_def)
  obtain inst where i: "fst (db_find (getProp args ''id'') s) = Some inst"
    using ok l by (cases "fst (db_find (getProp args ''id'') s)") (simp_all add: completeTask_run_def Let_def)
  have t: "filter (\<lambda>t. JStr (task_id t) = getProp args ''taskId'') listed \<noteq> []"
    using ok l i by (auto simp: completeTask_run_def Let_def)
  have g: "completeTask_guards R od (resolveValidationSet R fd)
             (fst (resolveUserForContext c (snd (db_find (getProp args ''id'') s)))) inst
             (filter (\<lambda>t. JStr (task_id t) = getProp args ''taskId'') listed) = None"
    using ok l i t guards_not_success [of R od "resolveValidationSet R fd"
        "fst (resolveUserForContext c (snd (db_find (getProp args ''id'') s)))" inst
        "filter (\<lambda>t. JStr (task_id t) = getProp args ''taskId'') listed"]
    by (simp add: completeTask_run_def Let_def split: option.splits)
  obtain fs where f: "filteredState_of R od (getProp args ''state'') = Inr fs"
    using ok l i t g
    by (cases "filteredState_of R od (getProp args ''state'')") (simp_all add: completeTask_run_def Let_def)
  have "snd (snd (completeTask_run R args fd od c s)) =
             snd (completeTask_apply R args od inst fs
                    (log_effect (EngineListTasks (getProp args ''id''))
                       (snd (snd (resolveUserForContext c (snd (db_find (getProp args ''id'') s)))))))"
    using l i t g f by (simp add: completeTask_run_def Let_def)
  with i f show ?thesis by blast
qed

lemma forwardable_spec: "forwardable v = string_number_or_null v"
  by (cases v) (simp_all add: forwardable_def string_number_or_null_def)

text \<open>
  Claim C7. In \<open>restart\<close>, \<open>completeTaskForInstance\<close> and \<open>completeTask\<close> the variables
  handed to the engine hold, under each key, \<open>{value: v}\<close> exactly when the value read for
  that key is a string, a number or \<open>null\<close>; a value of any other type leaves no entry
  and raises nothing. The variables are part of the engine call each operation makes.
\<close>

theorem engine_variables_only_strings_numbers_null:
  "map_of (restart_variables R inst) = marshalled (map field (stateFields R)) (getProp inst)
   \<and> EngineStart (processKey R) (getProp inst ''id'') activity
        (if restart_variables R inst = [] then None else Some (restart_variables R inst))
        \<in> set (trace (snd (restart R inst activity s)))
   \<and> map_of (completeTaskForInstance_variables sc) = marshalled (Object_keys sc) (getProp sc)
   \<and> EngineComplete taskId (Some (completeTaskForInstance_variables sc))
        \<in> set (trace (snd (completeTaskForInstance R inst taskId sc s)))
   \<and> (fst (completeTask R args c s) = Inr Success \<longrightarrow>
        (\<exists>fd od fs vars.
           completeTask_checks R args = Inr (fd, od) \<and>
           filteredState_of R od (getProp args ''state'') = Inr fs \<and>
           EngineComplete (getProp args ''taskId'') (if fs = [] then None else Some vars)
             \<in> set (trace (snd (snd (completeTask R args c s)))) \<and>
           map_of vars = marshalled (Object_keys fs) (getProp fs)))"
proof (intro conjI impI)
  show "map_of (restart_variables R inst) = marshalled (map field (stateFields R)) (getProp inst)"
    by (rule ext) (simp add: restart_variables_lookup marshalled_def forwardable_spec)
  show "EngineStart (processKey R) (getProp inst ''id'') activity
        (if restart_variables R inst = [] then None else Some (restart_variables R inst))
        \<in> set (trace (snd (restart R inst activity s)))"
    unfolding restart_def Let_def
    by (auto simp: trace_log in_trace_publish restart_variables_def)
  show "map_of (completeTaskForInstance_variables sc) = marshalled (Object_keys sc) (getProp sc)"
    by (rule ext) (simp add: completeTaskForInstance_variables_lookup marshalled_def forwardable_spec)
  show "EngineComplete taskId (Some (completeTaskForInstance_variables sc))
        \<in> set (trace (snd (completeTaskForInstance R inst taskId sc s)))"
    unfolding completeTaskForInstance_def Let_def
    by (simp add: trace_log in_trace_publish)
next
  assume ok: "fst (completeTask R args c s) = Inr Success"
  then obtain fd od where chk: "completeTask_checks R args = Inr (fd, od)"
    by (cases "completeTask_checks R args") (auto simp: completeTask_def)
  with ok have run: "fst (completeTask_run R args fd od c s) = Inr Success"
    and same: "completeTask R args c s = completeTask_run R args fd od c s"
    by (simp_all add: completeTask_def)
  from completeTask_run_success [OF run] obtain i fs where
    fs: "filteredState_of R od (getProp args ''state'') = Inr fs" and
    tr: "snd (snd (completeTask_run R args fd od c s)) =
           snd (completeTask_apply R args od i fs
                  (log_effect (EngineListTasks (getProp args ''id''))
                     (snd (snd (resolveUserForContext c (snd (db_find (getProp args ''id'') s)))))))"
    by blast
  have "EngineComplete (getProp args ''taskId'')
          (if fs = [] then None else Some (completeTaskForInstance_variables fs))
        \<in> set (trace (snd (snd (completeTask R args c s))))"
    unfolding same tr by (rule completeTask_apply_engine_call)
  moreover have "map_of (completeTaskForInstance_variables fs) = marshalled (Object_keys fs) (getProp fs)"
    by (rule ext) (simp add: completeTaskForInstance_variables_lookup marshalled_def forwardable_spec)
  ultimately show "\<exists>fd od fs vars.
           completeTask_checks R args = Inr (fd, od) \<and>
           filteredState_of R od (getProp args ''state'') = Inr fs \<and>
           EngineComplete (getProp args ''taskId'') (if fs = [] then None else Some vars)
             \<in> set (trace (snd (snd (completeTask R args c s)))) \<and>
           map_of vars = marshalled (Object_keys fs) (getProp fs)"
    using chk fs by blast
qed

lemmas completeTask_defs =
  completeTask_def completeTask_checks_def completeTask_run_def completeTask_guards_def
  completeTask_apply_def filteredState_of_def overlay_step_def resolveEnum_def Object_assign_def
  idSequencesToAssign_def dateFieldsToAssign_def apply_state_def state_step_def variable_step_def
  forwardable_def db_save_def publishInstanceWasModified_def access_denied_def

theorem engine_variables_witness:
  "restart_variables workflow_resolver mixed_instance =
     [(''phase'', JObj [(''value'', JStr ''draft'')]), (''round'', JObj [(''value'', JNum 2)]),
      (''note'', JObj [(''value'', JNull)])]
   \<and> map_of (restart_variables workflow_resolver mixed_instance) =
       marshalled [''phase'', ''flag'', ''round'', ''tags'', ''note''] (getProp mixed_instance)
   \<and> EngineStart ''submission'' (JStr ''A'') (JStr ''review'')
        (Some [(''phase'', JObj [(''value'', JStr ''draft'')]),
               (''round'', JObj [(''value'', JNum 2)]), (''note'', JObj [(''value'', JNull)])])
        \<in> set (trace (snd (restart workflow_resolver mixed_instance (JStr ''review'') example_sys)))
   \<and> completeTaskForInstance_variables mixed_instance =
       [(''id'', JObj [(''value'', JStr ''A'')]), (''phase'', JObj [(''value'', JStr ''draft'')]),
        (''round'', JObj [(''value'', JNum 2)]), (''note'', JObj [(''value'', JNull)])]
   \<and> fst (completeTask workflow_resolver accept_args example_ctx example_sys) = Inr Success
   \<and> (\<exists>vars.
         EngineComplete (JStr ''T'') (Some vars)
           \<in> set (trace (snd (snd (completeTask workflow_resolver accept_args example_ctx example_sys))))
         \<and> map_of vars =
             marshalled [''phase'', ''flag'', ''round'']
               (getProp [(''phase'', JStr ''published''), (''flag'', JBool True), (''round'', JNum 2)]))"
proof -
  note at_example = engine_variables_only_strings_numbers_null
    [of workflow_resolver mixed_instance "JStr ''review''" example_sys mixed_instance "JStr ''T''"
        accept_args example_ctx]
  have rv: "restart_variables workflow_resolver mixed_instance =
     [(''phase'', JObj [(''value'', JStr ''draft'')]), (''round'', JObj [(''value'', JNum 2)]),
      (''note'', JObj [(''value'', JNull)])]"
    by code_simp
  have sf: "map field (stateFields workflow_resolver) = [''phase'', ''flag'', ''round'', ''tags'', ''note'']"
    by code_simp
  have pk: "processKey workflow_resolver = ''submission''" "getProp mixed_instance ''id'' = JStr ''A''"
    by code_simp+
  have cv: "completeTaskForInstance_variables mixed_instance =
       [(''id'', JObj [(''value'', JStr ''A'')]), (''phase'', JObj [(''value'', JStr ''draft'')]),
        (''round'', JObj [(''value'', JNum 2)]), (''note'', JObj [(''value'', JNull)])]"
    by code_simp
  have ok: "fst (completeTask workflow_resolver accept_args example_ctx example_sys) = Inr Success"
    by code_simp
  have chk: "completeTask_checks workflow_resolver accept_args = Inr (curate_form, accept_outcome)"
    by code_simp
  have fs: "filteredState_of workflow_resolver accept_outcome (getProp accept_args ''state'') =
              Inr [(''phase'', JStr ''published''), (''flag'', JBool True), (''round'', JNum 2)]"
    by code_simp
  have tid: "getProp accept_args ''taskId'' = JStr ''T''"
    by code_simp
  from at_example ok obtain fd od fs' vars where
    h: "completeTask_checks workflow_resolver accept_args = Inr (fd, od)"
       "filteredState_of workflow_resolver od (getProp accept_args ''state'') = Inr fs'"
       "EngineComplete (getProp accept_args ''taskId'') (if fs' = [] then None else Some vars)
          \<in> set (trace (snd (snd (completeTask workflow_resolver accept_args example_ctx example_sys))))"
       "map_of vars = marshalled (Object_keys fs') (getProp fs')"
    by blast
  from h(1) chk have "od = accept_outcome" by simp
  with h(2) fs have fs': "fs' = [(''phase'', JStr ''published''), (''flag'', JBool True), (''round'', JNum 2)]"
    by simp
  have engine_call: "\<exists>vars.
         EngineComplete (JStr ''T'') (Some vars)
           \<in> set (trace (snd (snd (completeTask workflow_resolver accept_args example_ctx example_sys))))
         \<and> map_of vars =
             marshalled [''phase'', ''flag'', ''round'']
               (getProp [(''phase'', JStr ''published''), (''flag'', JBool True), (''round'', JNum 2)])"
    using h(3,4) unfolding fs' tid by (auto simp: Object_keys_def)
  show ?thesis
    using at_example rv sf pk cv ok engine_call by simp
qed

section \<open>Facts about queries and pages\<close>

lemma qWhere_fields [simp]:
  "qlimit (qWhere q g) = qlimit q" "qoffset (qWhere q g) = qoffset q"
  "full_count (qWhere q g) = full_count q" "selects (qWhere q g) = selects q"
  "orderBy (qWhere q g) = orderBy q"
  "wheres (qWhere q g) = wheres q @ [(AndC, WhereGroup g)]"
  by (simp_all add: qWhere_def)

lemma qAndWhere_eq: "qAndWhere q g = qWhere q g"
  by (simp add: qAndWhere_def qWhere_def)



lemma resolveUser_table [simp]:
  "table (snd (snd (resolveUserForContext c s))) = table s"
  "collate (snd (snd (resolveUserForContext c s))) = collate s"
  by (simp_all add: resolveUserForContext_def log_effect_def split: option.splits)

lemma matching_rows_cong:
  "table s' = table s \<Longrightarrow> matching_rows q s' = matching_rows q s"
  by (simp add: matching_rows_def)

lemma length_insert_by [simp]: "length (insert_by le x xs) = Suc (length xs)"
  by (induction xs) simp_all

lemma length_sort_by [simp]: "length (sort_by le xs) = length xs"
  by (induction xs) (simp_all add: sort_by_def)

lemma length_page_rows:
  "length (page_rows q s) = min (nat (qlimit q)) (length (matching_rows q s) - nat (qoffset q))"
  by (simp add: page_rows_def)

lemma page_rows_cong:
  "table s' = table s \<Longrightarrow> collate s' = collate s \<Longrightarrow> page_rows q s' = page_rows q s"
  by (simp add: page_rows_def matching_rows_def)

lemma getProp_update_same [simp]: "getProp (AList.update k v al) k = v"
  by (simp add: getProp_def update_conv')

lemma run_query_rows:
  "fst (run_query q s) = Inr r \<Longrightarrow>
     r = map (project_row q (length (matching_rows q s))) (page_rows q s)"
  by (auto simp: run_query_def split: if_splits)

section \<open>The guards on the arguments of completeTask\<close>

text \<open>
  Claim C5, as the source has it. \<open>completeTask\<close> throws a \<open>UserInputError\<close> when one of
  \<open>id\<close>, \<open>taskId\<close>, \<open>form\<close>, \<open>outcome\<close> is missing; otherwise a plain \<open>Error\<close> when the
  form is not among the forms; otherwise a plain \<open>Error\<close> when the outcome is not among
  the outcomes of that form; otherwise a plain \<open>Error\<close> when the outcome's result is not
  \<open>Complete\<close>. Each of these leaves the request context and the world as they were: no
  find, no save, no engine call has happened.
\<close>

theorem completeTask_argument_checks:
  "(\<not> args_supplied args \<longrightarrow>
      completeTask R args c s =
        (Inl (UserInputError
                ''Complete Task requires an instance id, task id, form and outcome to be supplied''),
         c, s))
   \<and> (args_supplied args \<and> named_form R args = None \<longrightarrow>
        completeTask R args c s =
          (Inl (Error ''Form is not defined for this instance type.''), c, s))
   \<and> (args_supplied args \<and> named_form R args = Some fd \<and> named_outcome fd args = None \<longrightarrow>
        completeTask R args c s =
          (Inl (Error ''Outcome is not defined within form definition for this instance type.''),
           c, s))
   \<and> (args_supplied args \<and> named_form R args = Some fd \<and> named_outcome fd args = Some od \<and>
        outcome_result od \<noteq> ''Complete'' \<longrightarrow>
        completeTask R args c s =
          (Inl (Error ''Form outcome result type is not a complete task type.''), c, s))"
  by (simp add: completeTask_def completeTask_checks_def args_supplied_def named_form_def
      named_outcome_def)

text \<open>
  Claim C5 as stated fails on the kind of the error: an unknown form is reported with the
  plain \<open>Error\<close> that also reports an outcome that does not complete, not with a
  \<open>NotFoundError\<close>.
\<close>

theorem completeTask_unknown_form_counterexample:
  "args_supplied unknown_form_args
   \<and> named_form workflow_resolver unknown_form_args = None
   \<and> fst (completeTask workflow_resolver unknown_form_args example_ctx example_sys) =
       Inl (Error ''Form is not defined for this instance type.'')
   \<and> \<not> is_not_found_error (Error ''Form is not defined for this instance type.'')"
  by code_simp

theorem completeTask_argument_checks_witness:
  "\<not> args_supplied no_task_args
   \<and> completeTask workflow_resolver no_task_args example_ctx example_sys =
       (Inl (UserInputError
               ''Complete Task requires an instance id, task id, form and outcome to be supplied''),
        example_ctx, example_sys)
   \<and> args_supplied unknown_form_args \<and> named_form workflow_resolver unknown_form_args = None
   \<and> completeTask workflow_resolver unknown_form_args example_ctx example_sys =
       (Inl (Error ''Form is not defined for this instance type.''), example_ctx, example_sys)
   \<and> args_supplied unknown_outcome_args
   \<and> named_form workflow_resolver unknown_outcome_args = Some curate_form
   \<and> named_outcome curate_form unknown_outcome_args = None
   \<and> completeTask workflow_resolver unknown_outcome_args example_ctx example_sys =
       (Inl (Error ''Outcome is not defined within form definition for this instance type.''),
        example_ctx, example_sys)
   \<and> args_supplied defer_args
   \<and> named_form workflow_resolver defer_args = Some curate_form
   \<and> named_outcome curate_form defer_args =
       Some (accept_outcome\<lparr>outcome_type := ''defer'', outcome_result := ''Save''\<rparr>)
   \<and> completeTask workflow_resolver defer_args example_ctx example_sys =
       (Inl (Error ''Form outcome result type is not a complete task type.''),
        example_ctx, example_sys)
   \<and> trace example_sys = []"
proof -
  have a: "\<not> args_supplied no_task_args" by code_simp
  have b: "args_supplied unknown_form_args" "named_form workflow_resolver unknown_form_args = None"
    by code_simp+
  have c: "args_supplied unknown_outcome_args"
    "named_form workflow_resolver unknown_outcome_args = Some curate_form"
    "named_outcome curate_form unknown_outcome_args = None"
    by code_simp+
  have d: "args_supplied defer_args"
    "named_form workflow_resolver defer_args = Some curate_form"
    "named_outcome curate_form defer_args =
       Some (accept_outcome\<lparr>outcome_type := ''defer'', outcome_result := ''Save''\<rparr>)"
    "outcome_result (accept_outcome\<lparr>outcome_type := ''defer'', outcome_result := ''Save''\<rparr>)
       \<noteq> ''Complete''"
    by code_simp+
  have e: "trace example_sys = []" by (simp add: example_sys_def)
  note t = completeTask_argument_checks
  from t [of no_task_args workflow_resolver example_ctx example_sys] a
  have 1: "completeTask workflow_resolver no_task_args example_ctx example_sys =
       (Inl (UserInputError
               ''Complete Task requires an instance id, task id, form and outcome to be supplied''),
        example_ctx, example_sys)"
    by blast
  from t [of unknown_form_args workflow_resolver example_ctx example_sys] b
  have 2: "completeTask workflow_resolver unknown_form_args example_ctx example_sys =
       (Inl (Error ''Form is not defined for this instance type.''), example_ctx, example_sys)"
    by blast
  from t [of unknown_outcome_args workflow_resolver example_ctx example_sys curate_form] c
  have 3: "completeTask workflow_resolver unknown_outcome_args example_ctx example_sys =
       (Inl (Error ''Outcome is not defined within form definition for this instance type.''),
        example_ctx, example_sys)"
    by blast
  from t [of defer_args workflow_resolver example_ctx example_sys curate_form
      "accept_outcome\<lparr>outcome_type := ''defer'', outcome_result := ''Save''\<rparr>"] d
  have 4: "completeTask workflow_resolver defer_args example_ctx example_sys =
       (Inl (Error ''Form outcome result type is not a complete task type.''),
        example_ctx, example_sys)"
    by blast
  from a b c d(1-3) e 1 2 3 4 show ?thesis by blast
qed

section \<open>Outcomes that require a validated submitter\<close>

lemma trace_resolveUser:
  "\<exists>es. trace (snd (snd (resolveUserForContext c s))) = trace s @ es \<and> list_all is_prefetch es"
  by (auto simp: resolveUserForContext_def log_effect_def is_prefetch_def split: option.splits)

lemma table_log [simp]: "table (log_effect e s) = table s"
  by (simp add: log_effect_def)

lemma db_find_snd: "snd (db_find i s) = log_effect (DbFind i) s"
  by (simp add: db_find_def)

lemma prefetch_state:
  "table (log_effect (EngineListTasks i) (snd (snd (resolveUserForContext c (snd (db_find i s))))))
     = table s
   \<and> (\<exists>es. trace (log_effect (EngineListTasks i)
               (snd (snd (resolveUserForContext c (snd (db_find i s)))))) = trace s @ es
          \<and> list_all is_prefetch es)"
proof -
  obtain es where es: "trace (snd (snd (resolveUserForContext c (log_effect (DbFind i) s))))
      = trace (log_effect (DbFind i) s) @ es" "list_all is_prefetch es"
    using trace_resolveUser by blast
  have "trace (log_effect (EngineListTasks i)
               (snd (snd (resolveUserForContext c (snd (db_find i s))))))
          = trace s @ ([DbFind i] @ es @ [EngineListTasks i])"
    using es(1) by (simp add: db_find_snd trace_log)
  moreover have "list_all is_prefetch ([DbFind i] @ es @ [EngineListTasks i])"
    using es(2) by (simp add: is_prefetch_def)
  ultimately show ?thesis
    by (metis resolveUser_table(1) table_log db_find_snd)
qed






section \<open>Updates outside the writable fields\<close>

lemma keys_update_allowedFields:
  "fst ` set (update_allowedFields R m) = writable_fields R m"
  by (auto simp: update_allowedFields_def writable_fields_def keys_pick Object_keys_def
      split: option.splits)

lemma restricted_is_offending:
  "filter (\<lambda>k. \<not> hasOwnProperty (update_allowedFields R m) k) (Object_keys (AList.delete ''id'' inp))
     = offending_fields R inp m"
  unfolding offending_fields_def hasOwnProperty_def set_map keys_update_allowedFields ..

lemma update_prefetch_state:
  "table (snd (snd (resolveUserForContext c (snd (db_find i s))))) = table s
   \<and> (\<exists>es. trace (snd (snd (resolveUserForContext c (snd (db_find i s))))) = trace s @ es
          \<and> list_all is_prefetch es)"
proof -
  obtain es where es: "trace (snd (snd (resolveUserForContext c (log_effect (DbFind i) s))))
      = trace (log_effect (DbFind i) s) @ es" "list_all is_prefetch es"
    using trace_resolveUser by blast
  have "trace (snd (snd (resolveUserForContext c (snd (db_find i s))))) = trace s @ ([DbFind i] @ es)"
    using es(1) by (simp add: db_find_snd trace_log)
  moreover have "list_all is_prefetch ([DbFind i] @ es)"
    using es(2) by (simp add: is_prefetch_def)
  ultimately show ?thesis
    by (metis resolveUser_table(1) table_log db_find_snd)
qed

lemma update_instance_refuses_fields:
  assumes mi: "model_input R"
    and found: "fst (db_find (getProp inp ''id'') s) = Some ob"
    and adm: "acl_admits_write R (fst (resolveUserForContext c s)) (Some ob)"
    and off: "offending_fields R inp (write_match R (fst (resolveUserForContext c s)) (Some ob)) \<noteq> []"
  shows "update_instance R inp c s =
           (Inl (AuthorizationError
                   (''You do not have write access on the following fields: '' @
                    join '', '' (offending_fields R inp
                                   (write_match R (fst (resolveUserForContext c s)) (Some ob))))),
            snd (resolveUserForContext c (snd (db_find (getProp inp ''id'') s))))"
proof -
  let ?user = "fst (resolveUserForContext c s)"
  have u: "fst (resolveUserForContext c (snd (db_find (getProp inp ''id'') s))) = ?user"
    by (simp add: db_find_snd resolveUser_log)
  show ?thesis
  proof (cases "acl R")
    case None
    with mi found off show ?thesis
      unfolding update_instance_def Let_def
      by (simp add: u write_match_def restricted_is_offending)
  next
    case (Some a)
    with mi found off adm show ?thesis
      unfolding update_instance_def Let_def
      by (simp add: u write_match_def acl_admits_write_def restricted_is_offending)
  qed
qed

lemma update_instance_nothing_persisted:
  assumes off: "offending_fields R inp
                  (write_match R (fst (resolveUserForContext c s))
                     (fst (db_find (getProp inp ''id'') s))) \<noteq> []"
  shows "(\<exists>e. fst (update_instance R inp c s) = Inl e) \<and>
         table (snd (snd (update_instance R inp c s))) = table s \<and>
         (\<exists>es. trace (snd (snd (update_instance R inp c s))) = trace s @ es \<and>
               list_all is_prefetch es)"
proof (cases "model_input R")
  case False
  then have "update_instance R inp c s =
      (Inl (Error ''Model is not defined as an allowing updates.''), c, s)"
    by (simp add: update_instance_def)
  then show ?thesis by simp
next
  case True
  let ?i = "getProp inp ''id''"
  let ?user = "fst (resolveUserForContext c s)"
  let ?ob = "fst (db_find ?i s)"
  let ?st = "snd (resolveUserForContext c (snd (db_find ?i s)))"
  have u: "fst (resolveUserForContext c (snd (db_find ?i s))) = ?user"
    by (simp add: db_find_snd resolveUser_log)
  have "\<exists>e. update_instance R inp c s = (Inl e, ?st)"
  proof (cases "acl R")
    case None
    with True off show ?thesis
      unfolding update_instance_def Let_def
      by (cases ?ob) (simp_all add: u write_match_def restricted_is_offending)
  next
    case (Some a)
    with True off show ?thesis
      unfolding update_instance_def Let_def
      by (cases ?ob) (simp_all add: u write_match_def restricted_is_offending)
  qed
  then obtain e where e: "update_instance R inp c s = (Inl e, ?st)" by blast
  show ?thesis
    unfolding e using update_prefetch_state [of c ?i s] by simp
qed


text \<open>
  Claim C3, as the source has it. When the model accepts input, the entity is found and
  the access and write ACLs admit the subject, an update whose input has a key (other
  than \<open>id\<close>) outside the writable fields throws an \<open>AuthorizationError\<close> whose message
  lists exactly those keys, in input order. And whatever the earlier checks say, an update
  with such a key fails, leaves the stored entities as they were and makes no call but
  the prefetches: nothing is saved and no event is published.
\<close>

theorem update_refuses_fields_outside_write_set:
  "(model_input R \<and> fst (db_find (getProp inp ''id'') s) = Some ob \<and>
    acl_admits_write R (fst (resolveUserForContext c s)) (Some ob) \<and>
    offending_fields R inp (write_match R (fst (resolveUserForContext c s)) (Some ob)) \<noteq> [] \<longrightarrow>
      fst (update_instance R inp c s) =
        Inl (AuthorizationError
               (''You do not have write access on the following fields: '' @
                join '', '' (offending_fields R inp
                               (write_match R (fst (resolveUserForContext c s)) (Some ob))))))
   \<and> (offending_fields R inp
         (write_match R (fst (resolveUserForContext c s))
            (fst (db_find (getProp inp ''id'') s))) \<noteq> [] \<longrightarrow>
        (\<exists>e. fst (update_instance R inp c s) = Inl e) \<and>
        table (snd (snd (update_instance R inp c s))) = table s \<and>
        (\<exists>es. trace (snd (snd (update_instance R inp c s))) = trace s @ es \<and>
              list_all is_prefetch es))"
proof (intro conjI impI)
  assume "model_input R \<and> fst (db_find (getProp inp ''id'') s) = Some ob \<and>
    acl_admits_write R (fst (resolveUserForContext c s)) (Some ob) \<and>
    offending_fields R inp (write_match R (fst (resolveUserForContext c s)) (Some ob)) \<noteq> []"
  then show "fst (update_instance R inp c s) =
        Inl (AuthorizationError
               (''You do not have write access on the following fields: '' @
                join '', '' (offending_fields R inp
                               (write_match R (fst (resolveUserForContext c s)) (Some ob)))))"
    using update_instance_refuses_fields [of R inp s ob c] by simp
next
  assume off: "offending_fields R inp
         (write_match R (fst (resolveUserForContext c s))
            (fst (db_find (getProp inp ''id'') s))) \<noteq> []"
  note np = update_instance_nothing_persisted [OF off]
  from np show "\<exists>e. fst (update_instance R inp c s) = Inl e" by blast
  from np show "table (snd (snd (update_instance R inp c s))) = table s" by blast
  from np show "\<exists>es. trace (snd (snd (update_instance R inp c s))) = trace s @ es \<and>
              list_all is_prefetch es" by blast
qed

text \<open>
  Claim C3 as stated fails for a model that does not accept input: the update has keys
  outside the writable fields, and the error is the plain \<open>Error\<close> of the model check,
  not an \<open>AuthorizationError\<close> that lists them.
\<close>

theorem update_refuses_fields_counterexample:
  "offending_fields (example_resolver\<lparr>acl := Some acl_title_only, model_input := False\<rparr>) cost_update
     (write_match (example_resolver\<lparr>acl := Some acl_title_only, model_input := False\<rparr>)
        (fst (resolveUserForContext example_ctx example_sys)) (Some row_A))
     = [''secretCost'', ''phase'']
   \<and> fst (update_instance (example_resolver\<lparr>acl := Some acl_title_only, model_input := False\<rparr>)
            cost_update example_ctx example_sys)
     = Inl (Error ''Model is not defined as an allowing updates.'')"
  by code_simp

theorem update_refuses_fields_witness:
  "model_input (example_resolver\<lparr>acl := Some acl_title_only\<rparr>)
   \<and> fst (db_find (getProp cost_update ''id'') example_sys) = Some row_A
   \<and> acl_admits_write (example_resolver\<lparr>acl := Some acl_title_only\<rparr>)
        (fst (resolveUserForContext example_ctx example_sys)) (Some row_A)
   \<and> offending_fields (example_resolver\<lparr>acl := Some acl_title_only\<rparr>) cost_update
        (write_match (example_resolver\<lparr>acl := Some acl_title_only\<rparr>)
           (fst (resolveUserForContext example_ctx example_sys)) (Some row_A))
       = [''secretCost'', ''phase'']
   \<and> fst (update_instance (example_resolver\<lparr>acl := Some acl_title_only\<rparr>) cost_update
            example_ctx example_sys)
       = Inl (AuthorizationError
                ''You do not have write access on the following fields: secretCost, phase'')
   \<and> table (snd (snd (update_instance (example_resolver\<lparr>acl := Some acl_title_only\<rparr>) cost_update
                        example_ctx example_sys))) = table example_sys
   \<and> (\<exists>es. trace (snd (snd (update_instance (example_resolver\<lparr>acl := Some acl_title_only\<rparr>)
                                cost_update example_ctx example_sys)))
             = trace example_sys @ es \<and> list_all is_prefetch es)"
proof -
  let ?R = "example_resolver\<lparr>acl := Some acl_title_only\<rparr>"
  let ?u = "fst (resolveUserForContext example_ctx example_sys)"
  have mi: "model_input ?R" by code_simp
  have f: "fst (db_find (getProp cost_update ''id'') example_sys) = Some row_A" by code_simp
  have adm: "acl_admits_write ?R ?u (Some row_A)" by code_simp
  have off: "offending_fields ?R cost_update (write_match ?R ?u (Some row_A))
               = [''secretCost'', ''phase'']" by code_simp
  note t = update_refuses_fields_outside_write_set [of ?R cost_update example_sys row_A example_ctx]
  from t mi f adm off
  have 1: "fst (update_instance ?R cost_update example_ctx example_sys)
       = Inl (AuthorizationError
                ''You do not have write access on the following fields: secretCost, phase'')"
    by simp
  from t f off
  have 2: "table (snd (snd (update_instance ?R cost_update example_ctx example_sys)))
             = table example_sys \<and>
           (\<exists>es. trace (snd (snd (update_instance ?R cost_update example_ctx example_sys)))
             = trace example_sys @ es \<and> list_all is_prefetch es)"
    by simp
  from mi f adm off 1 2 show ?thesis by blast
qed

section \<open>The request-scoped memo of entities\<close>

lemma has_user_set [simp]: "has_user (set_lookup_map R m c) = has_user c"
  by (simp add: has_user_def set_lookup_map_def)

lemma lookup_map_set_same [simp]: "lookup_map R (set_lookup_map R m c) = m"
  by (simp add: lookup_map_def set_lookup_map_def update_conv')


lemma lookup_map_same_id:
  "contextLookupId R = contextLookupId R' \<Longrightarrow> lookup_map R c = lookup_map R' c"
  by (simp add: lookup_map_def)

lemma set_lookup_map_same_id:
  "contextLookupId R = contextLookupId R' \<Longrightarrow> set_lookup_map R m c = set_lookup_map R' m c"
  by (simp add: set_lookup_map_def)

lemma resolve_has_user [simp]:
  "has_user (fst (snd (resolveInstanceUsingContext R i c s))) = has_user c"
  by (simp add: resolveInstanceUsingContext_def Let_def split: option.splits)









lemma has_user_add [simp]: "has_user (addInstancesToContext R obs c) = has_user c"
  by (simp add: addInstancesToContext_def)

lemma has_user_resolveUser [simp]:
  "has_user (fst (snd (resolveUserForContext c s))) = has_user c"
  by (simp add: resolveUserForContext_def has_user_def split: option.splits)

lemma lookup_map_resolveUser [simp]:
  "lookup_map R (fst (snd (resolveUserForContext c s))) = lookup_map R c"
  by (simp add: resolveUserForContext_def lookup_map_def split: option.splits)
















section \<open>Filtering of listings\<close>

lemma filter_field_step_plain:
  assumes "modifyListingFilterQueryForField R = []"
  shows "fst (filter_field_step R flt f st) =
           fst st @ (case field_condition f (getProp flt (field f)) of
                       None \<Rightarrow> [] | Some cl \<Rightarrow> [(AndC, cl)])"
  using assms
  by (cases "getProp flt (field f)")
     (simp_all add: filter_field_step_def field_condition_def Let_def)

lemma fold_filter_field_step:
  assumes "modifyListingFilterQueryForField R = []"
  shows "fst (fold (filter_field_step R flt) fs st) =
           fst st @ map (Pair AndC)
                      (List.map_filter (\<lambda>f. field_condition f (getProp flt (field f))) fs)"
proof (induction fs arbitrary: st)
  case Nil
  then show ?case by (simp add: map_filter_simps)
next
  case (Cons f fs)
  show ?case
    using Cons [of "filter_field_step R flt f st"] filter_field_step_plain [OF assms, of flt f st]
    by (simp add: map_filter_simps split: option.splits)
qed

lemma filter_builder_plain:
  assumes "modifyListingFilterQueryForField R = []" "modifyListingFilterQuery R = []"
  shows "fst (filter_builder R flt) = filter_conditions R flt"
  using fold_filter_field_step [OF assms(1), of flt "listingFilterFields R" "([], False)"] assms(2)
  by (simp add: filter_builder_def filter_conditions_def)

lemma filter_conditions_cong:
  assumes "\<forall>f \<in> set (listingFilterFields R). getProp flt (field f) = getProp flt' (field f)"
  shows "filter_conditions R flt = filter_conditions R flt'"
proof -
  have "List.map_filter (\<lambda>f. field_condition f (getProp flt (field f))) fs =
        List.map_filter (\<lambda>f. field_condition f (getProp flt' (field f))) fs"
    if "\<forall>f \<in> set fs. getProp flt (field f) = getProp flt' (field f)" for fs
    using that by (induction fs) (auto simp: map_filter_simps split: option.splits)
  with assms show ?thesis by (simp add: filter_conditions_def)
qed

lemma list_plan_wheres:
  assumes "list_plan R inp tlf user = Inr q" "modifyListingQuery R = []"
  shows "\<exists>rs. list_restrictions R user = Some rs \<and>
           wheres q = filter_part R inp @ ownership_part R rs user"
proof (cases "list_restrictions R user")
  case None
  then have "list_plan R inp tlf user \<noteq> Inr q"
    unfolding list_plan_def Let_def list_restrictions_def
    by (cases "acl R") auto
  with assms show ?thesis by simp
next
  case (Some rs)
  have r: "(case map_option (\<lambda>a. a (fst (userToAclTargets R user None)) Access None) (acl R) of
             None \<Rightarrow> Some [''all''] | Some m \<Rightarrow> allowedRestrictions m) = Some rs"
    using Some by (cases "acl R") (simp_all add: list_restrictions_def)
  have "wheres q = filter_part R inp @ ownership_part R rs user"
    using assms unfolding list_plan_def Let_def r
    by (cases "filter_in inp"; cases user)
       (auto simp: filter_part_def ownership_part_def qAndWhere_eq split: if_splits)
  with Some show ?thesis by simp
qed


text \<open>
  Claim C8, as the source has it. Without filter extensions the filter group of a listing
  holds, for each declared filter field in turn and nothing else: \<open>field IS NULL\<close> for
  \<open>null\<close>; on a multiple field \<open>field IN (values)\<close> for an array and no condition for
  any other value; on any other field \<open>field = FALSE OR field IS NULL\<close> for \<open>false\<close>
  and \<open>field = value\<close> for any other value. Keys of the filter that are not declared
  filter fields change nothing. The group is the first where-clause of the planned query.
\<close>

theorem listing_filter_conditions:
  assumes "modifyListingFilterQueryForField R = []" and "modifyListingFilterQuery R = []"
  shows "fst (filter_builder R flt) = filter_conditions R flt
    \<and> ((\<forall>f \<in> set (listingFilterFields R). getProp flt (field f) = getProp flt' (field f)) \<longrightarrow>
         filter_conditions R flt = filter_conditions R flt')
    \<and> (modifyListingQuery R = [] \<and> list_plan R inp tlf user = Inr q \<and>
        filter_in inp = Some flt \<and> listingFilterFields R \<noteq> [] \<longrightarrow>
         (\<exists>own. wheres q = (AndC, WhereGroup (filter_conditions R flt)) # own))
    \<and> (eval_clause row (WhereGroup [(AndC, WhereEq k (JBool False)), (OrC, WhereNull k)]) \<longleftrightarrow>
         getProp row k = JBool False \<or> is_null (getProp row k))"
proof (intro conjI impI)
  show fb: "fst (filter_builder R flt) = filter_conditions R flt"
    using assms by (rule filter_builder_plain)
  {
    assume "\<forall>f \<in> set (listingFilterFields R). getProp flt (field f) = getProp flt' (field f)"
    then show "filter_conditions R flt = filter_conditions R flt'"
      by (rule filter_conditions_cong)
  }
  {
    assume a: "modifyListingQuery R = [] \<and> list_plan R inp tlf user = Inr q \<and>
        filter_in inp = Some flt \<and> listingFilterFields R \<noteq> []"
    then obtain rs where "wheres q = filter_part R inp @ ownership_part R rs user"
      using list_plan_wheres [of R inp tlf user q] by blast
    with a fb show "\<exists>own. wheres q = (AndC, WhereGroup (filter_conditions R flt)) # own"
      by (simp add: filter_part_def)
  }
  show "eval_clause row (WhereGroup [(AndC, WhereEq k (JBool False)), (OrC, WhereNull k)]) \<longleftrightarrow>
         getProp row k = JBool False \<or> is_null (getProp row k)"
    by (simp add: sql_combine_def is_null_def)
qed

text \<open>
  Claim C8 as stated fails on a multiple field: a scalar given for it yields no condition
  at all, not \<open>field = value\<close>, and the listing returns rows that do not hold the value.
\<close>

theorem listing_filter_counterexample:
  "listingFilterFields filter_resolver ! 3 =
     (plain_element ''keywords'')\<lparr>listingFilterMultiple := True\<rparr>
   \<and> fst (filter_builder filter_resolver [(''keywords'', JStr ''a'')]) = []
   \<and> getProp row_A ''keywords'' \<noteq> JStr ''a''
   \<and> fst (list_instances filter_resolver
            (empty_list_input\<lparr>filter_in := Some [(''keywords'', JStr ''a'')]\<rparr>) [''id'']
            anonymous_ctx example_sys)
       = Inr \<lparr>results = [[(''id'', JStr ''A'')], [(''id'', JStr ''B'')]],
              pageInfo = \<lparr>totalCount = JNum 2, page_offset = 0, pageSize = 200\<rparr>\<rparr>"
  by code_simp

theorem listing_filter_witness:
  "modifyListingFilterQueryForField filter_resolver = []
   \<and> modifyListingFilterQuery filter_resolver = []
   \<and> modifyListingQuery filter_resolver = []
   \<and> fst (filter_builder filter_resolver example_filter) =
       [(AndC, WhereEq ''phase'' (JStr ''draft'')),
        (AndC, WhereNull ''title''),
        (AndC, WhereIn ''keywords'' [JStr ''a'', JStr ''b'']),
        (AndC, WhereGroup [(AndC, WhereEq ''archived'' (JBool False)),
                           (OrC, WhereNull ''archived'')])]
   \<and> filter_conditions filter_resolver example_filter =
       filter_conditions filter_resolver (AList.delete ''bogus'' example_filter)
   \<and> (\<exists>q own. list_plan filter_resolver (empty_list_input\<lparr>filter_in := Some example_filter\<rparr>)
                  [''id''] None = Inr q
             \<and> wheres q = (AndC, WhereGroup (filter_conditions filter_resolver example_filter)) # own)"
proof -
  let ?inp = "empty_list_input\<lparr>filter_in := Some example_filter\<rparr>"
  have e: "modifyListingFilterQueryForField filter_resolver = []"
    "modifyListingFilterQuery filter_resolver = []"
    "modifyListingQuery filter_resolver = []"
    by (simp_all add: filter_resolver_def example_resolver_def)
  note t = listing_filter_conditions [OF e(1,2)]
  have fc: "filter_conditions filter_resolver example_filter =
       [(AndC, WhereEq ''phase'' (JStr ''draft'')),
        (AndC, WhereNull ''title''),
        (AndC, WhereIn ''keywords'' [JStr ''a'', JStr ''b'']),
        (AndC, WhereGroup [(AndC, WhereEq ''archived'' (JBool False)),
                           (OrC, WhereNull ''archived'')])]"
    by code_simp
  have agree: "\<forall>f \<in> set (listingFilterFields filter_resolver).
      getProp example_filter (field f) = getProp (AList.delete ''bogus'' example_filter) (field f)"
    by code_simp
  obtain q where q: "list_plan filter_resolver ?inp [''id''] None = Inr q"
    by (cases "list_plan filter_resolver ?inp [''id''] None")
       (simp_all add: list_plan_def Let_def filter_resolver_def example_resolver_def)
  have fi: "filter_in ?inp = Some example_filter" "listingFilterFields filter_resolver \<noteq> []"
    by (simp_all add: filter_resolver_def)
  from t [of example_filter] fc
  have 1: "fst (filter_builder filter_resolver example_filter) =
       [(AndC, WhereEq ''phase'' (JStr ''draft'')),
        (AndC, WhereNull ''title''),
        (AndC, WhereIn ''keywords'' [JStr ''a'', JStr ''b'']),
        (AndC, WhereGroup [(AndC, WhereEq ''archived'' (JBool False)),
                           (OrC, WhereNull ''archived'')])]"
    by simp
  from t [of example_filter "AList.delete ''bogus'' example_filter"] agree
  have 2: "filter_conditions filter_resolver example_filter =
       filter_conditions filter_resolver (AList.delete ''bogus'' example_filter)"
    by blast
  from t [of example_filter example_filter ?inp "[''id'']" None q] e(3) q fi
  have 3: "\<exists>own. wheres q = (AndC, WhereGroup (filter_conditions filter_resolver example_filter)) # own"
    by blast
  from e 1 2 3 q show ?thesis by blast
qed

section \<open>Paging of listings\<close>










section \<open>Ownership scoping of listings\<close>

lemma sql_or_segments_ors:
  "sql_or_segments acc (map (\<lambda>x. (OrC, P x)) xs) = (acc \<or> (\<exists>x \<in> set xs. P x))"
  by (induction xs arbitrary: acc) auto

lemma eval_owner_group:
  assumes "ownerFields R \<noteq> []"
  shows "eval_clause row (WhereGroup (ownerFieldStatementBuilder R u)) = owned_by R u row"
proof -
  obtain f fs where fs: "ownerFields R = f # fs"
    using assms by (cases "ownerFields R") auto
  have "eval_clause row (WhereGroup (ownerFieldStatementBuilder R u)) =
          sql_or_segments (getProp row (joinField f) = JStr (ident_id u))
            (map (\<lambda>g. (OrC, getProp row (joinField g) = JStr (ident_id u))) fs)"
    by (simp add: ownerFieldStatementBuilder_def fs sql_combine_def is_null_def comp_def)
  then show ?thesis
    by (simp add: sql_or_segments_ors owned_by_def fs list_ex_iff)
qed

lemma eval_filter_then_owner:
  "eval_builder row (filter_part R inp @ [(AndC, WhereGroup g)]) =
     (eval_builder row (filter_part R inp) \<and> eval_clause row (WhereGroup g))"
  by (auto simp: filter_part_def eval_builder_def sql_combine_def split: option.splits)

lemma set_insert_by [simp]: "set (insert_by le x xs) = insert x (set xs)"
  by (induction xs) auto

lemma set_sort_by [simp]: "set (sort_by le xs) = set xs"
  by (induction xs) (simp_all add: sort_by_def)

lemma page_rows_subset: "set (page_rows q s) \<subseteq> set (matching_rows q s)"
proof -
  have g: "set (take n (drop m xs)) \<subseteq> set xs" for n m and xs :: "jsobj list"
    by (meson set_drop_subset set_take_subset subset_trans)
  show ?thesis
  proof (cases "orderBy q = []")
    case True
    then show ?thesis
      using g [of "nat (qlimit q)" "nat (qoffset q)" "matching_rows q s"]
      by (simp add: page_rows_def)
  next
    case False
    then show ?thesis
      using g [of "nat (qlimit q)" "nat (qoffset q)"
                  "sort_by (collate s (orderBy q)) (matching_rows q s)"]
      by (simp add: page_rows_def)
  qed
qed

lemma list_plan_no_subject:
  assumes "list_restrictions R None = Some rs" "''all'' \<notin> set rs"
  shows "\<exists>m. list_plan R inp tlf None = Inl (AuthorizationError m)"
proof (cases "acl R")
  case None
  with assms show ?thesis by (auto simp: list_restrictions_def)
next
  case (Some a)
  with assms show ?thesis
    unfolding list_plan_def Let_def list_restrictions_def by simp
qed

lemma list_plan_owner_scope:
  assumes plan: "list_plan R inp tlf (Some u) = Inr q" and ext: "modifyListingQuery R = []"
    and rs: "list_restrictions R (Some u) = Some rs" "''all'' \<notin> set rs"
    and own: "ownerFields R \<noteq> []"
  shows "wheres q = filter_part R inp @ [(AndC, WhereGroup (ownerFieldStatementBuilder R u))]"
    and "eval_builder row (wheres q) = (eval_builder row (filter_part R inp) \<and> owned_by R u row)"
proof -
  from list_plan_wheres [OF plan ext] rs own
  show w: "wheres q = filter_part R inp @ [(AndC, WhereGroup (ownerFieldStatementBuilder R u))]"
    by (simp add: ownership_part_def)
  show "eval_builder row (wheres q) = (eval_builder row (filter_part R inp) \<and> owned_by R u row)"
    unfolding w eval_filter_then_owner eval_owner_group [OF own] ..
qed

lemma list_instances_rows:
  assumes "fst (list_instances R inp tlf c s) = Inr res" "dto \<in> set (results res)"
  shows "\<exists>q row. list_plan R inp tlf (fst (resolveUserForContext c s)) = Inr q \<and>
           row \<in> set (matching_rows q s) \<and>
           dto = getInstance R (project_row q (length (matching_rows q s)) row)
                   (fst (userToAclTargets R (fst (resolveUserForContext c s))
                          (Some (project_row q (length (matching_rows q s)) row)))) tlf"
proof -
  let ?s1 = "snd (snd (resolveUserForContext c s))"
  let ?user = "fst (resolveUserForContext c s)"
  obtain q where q: "list_plan R inp tlf ?user = Inr q"
    using assms(1) unfolding list_instances_def Let_def
    by (cases "list_plan R inp tlf ?user") simp_all
  obtain r where r: "fst (run_query q ?s1) = Inr r"
    using assms(1) q unfolding list_instances_def Let_def
    by (cases "fst (run_query q ?s1)") simp_all
  have res: "results res = map (\<lambda>object. getInstance R object
                                 (fst (userToAclTargets R ?user (Some object))) tlf) r"
    using assms(1) q r unfolding list_instances_def Let_def by auto
  have m: "matching_rows q ?s1 = matching_rows q s"
    by (rule matching_rows_cong) simp
  have p: "page_rows q ?s1 = page_rows q s"
    by (rule page_rows_cong) simp_all
  have rr: "r = map (project_row q (length (matching_rows q s))) (page_rows q s)"
    using run_query_rows [OF r] m p by simp
  from assms(2) res rr obtain row where
    "row \<in> set (page_rows q s)"
    "dto = getInstance R (project_row q (length (matching_rows q s)) row)
                   (fst (userToAclTargets R ?user
                          (Some (project_row q (length (matching_rows q s)) row)))) tlf"
    by auto
  with q page_rows_subset [of q s] show ?thesis by blast
qed


text \<open>
  What the listing does when the access match grants restriction scopes without
  \<open>all\<close>: without a subject it fails with an \<open>AuthorizationError\<close>; with a subject,
  on a model that declares at least one owner field and without listing-query extensions,
  the where-clauses of the planned query are the filter's group followed by the
  disjunction \<open>ownerField = subject.id\<close> over all owner join fields, attached with
  \<open>AND\<close>, so a row matches exactly when it passes the filter and is owned by the
  subject, and every returned entity is the projection of a stored row that the subject
  owns.
\<close>

theorem listing_scoped_to_owner:
  "(fst (resolveUserForContext c s) = None \<and> list_restrictions R None = Some rs \<and>
    ''all'' \<notin> set rs \<longrightarrow>
      (\<exists>m. fst (list_instances R inp tlf c s) = Inl (AuthorizationError m)))
   \<and> (fst (resolveUserForContext c s) = Some u \<and> list_restrictions R (Some u) = Some rs \<and>
       ''all'' \<notin> set rs \<and> ownerFields R \<noteq> [] \<and> modifyListingQuery R = [] \<longrightarrow>
        (\<forall>q. list_plan R inp tlf (Some u) = Inr q \<longrightarrow>
           wheres q = filter_part R inp @ [(AndC, WhereGroup (ownerFieldStatementBuilder R u))] \<and>
           (\<forall>row. eval_builder row (wheres q) =
                    (eval_builder row (filter_part R inp) \<and> owned_by R u row))) \<and>
        (\<forall>res dto. fst (list_instances R inp tlf c s) = Inr res \<and> dto \<in> set (results res) \<longrightarrow>
           (\<exists>q row. row \<in> set (table s) \<and> owned_by R u row \<and>
                    eval_builder row (filter_part R inp) \<and>
                    dto = getInstance R (project_row q (length (matching_rows q s)) row)
                            (fst (userToAclTargets R (Some u)
                                   (Some (project_row q (length (matching_rows q s)) row)))) tlf)))"
proof (intro conjI impI allI)
  assume a: "fst (resolveUserForContext c s) = None \<and> list_restrictions R None = Some rs \<and>
    ''all'' \<notin> set rs"
  then obtain m where "list_plan R inp tlf None = Inl (AuthorizationError m)"
    using list_plan_no_subject [of R rs inp tlf] by blast
  with a have "fst (list_instances R inp tlf c s) = Inl (AuthorizationError m)"
    by (simp add: list_instances_def Let_def)
  then show "\<exists>m. fst (list_instances R inp tlf c s) = Inl (AuthorizationError m)" ..
next
  fix q
  assume a: "fst (resolveUserForContext c s) = Some u \<and> list_restrictions R (Some u) = Some rs \<and>
       ''all'' \<notin> set rs \<and> ownerFields R \<noteq> [] \<and> modifyListingQuery R = []"
    and q: "list_plan R inp tlf (Some u) = Inr q"
  from a q show "wheres q = filter_part R inp @ [(AndC, WhereGroup (ownerFieldStatementBuilder R u))]"
    using list_plan_owner_scope(1) [of R inp tlf u q rs] by blast
  fix row
  from a q show "eval_builder row (wheres q) =
                    (eval_builder row (filter_part R inp) \<and> owned_by R u row)"
    using list_plan_owner_scope(2) [of R inp tlf u q rs row] by blast
next
  fix res dto
  assume a: "fst (resolveUserForContext c s) = Some u \<and> list_restrictions R (Some u) = Some rs \<and>
       ''all'' \<notin> set rs \<and> ownerFields R \<noteq> [] \<and> modifyListingQuery R = []"
    and r: "fst (list_instances R inp tlf c s) = Inr res \<and> dto \<in> set (results res)"
  from list_instances_rows [of R inp tlf c s res dto] r a
  obtain q row where q: "list_plan R inp tlf (Some u) = Inr q"
    and row: "row \<in> set (matching_rows q s)"
    and dto: "dto = getInstance R (project_row q (length (matching_rows q s)) row)
                   (fst (userToAclTargets R (Some u)
                          (Some (project_row q (length (matching_rows q s)) row)))) tlf"
    by auto
  from row have t: "row \<in> set (table s)" and e: "eval_builder row (wheres q)"
    by (simp_all add: matching_rows_def)
  from e a q have "eval_builder row (filter_part R inp) \<and> owned_by R u row"
    using list_plan_owner_scope(2) [of R inp tlf u q rs row] by blast
  with t dto show "\<exists>q row. row \<in> set (table s) \<and> owned_by R u row \<and>
                    eval_builder row (filter_part R inp) \<and>
                    dto = getInstance R (project_row q (length (matching_rows q s)) row)
                            (fst (userToAclTargets R (Some u)
                                   (Some (project_row q (length (matching_rows q s)) row)))) tlf"
    by blast
qed

theorem listing_scoped_to_owner_witness:
  "fst (resolveUserForContext anonymous_ctx example_sys) = None
   \<and> list_restrictions (example_resolver\<lparr>acl := Some acl_owner_scope\<rparr>) None = Some [''owner'']
   \<and> (\<exists>m. fst (list_instances (example_resolver\<lparr>acl := Some acl_owner_scope\<rparr>) empty_list_input
                 [''id''] anonymous_ctx example_sys) = Inl (AuthorizationError m))
   \<and> fst (resolveUserForContext example_ctx example_sys) =
       Some \<lparr>ident_id = ''u1'', isValidatedEmail = False\<rparr>
   \<and> list_restrictions (example_resolver\<lparr>acl := Some acl_owner_scope\<rparr>)
        (Some \<lparr>ident_id = ''u1'', isValidatedEmail = False\<rparr>) = Some [''owner'']
   \<and> ownerFields (example_resolver\<lparr>acl := Some acl_owner_scope\<rparr>) \<noteq> []
   \<and> modifyListingQuery (example_resolver\<lparr>acl := Some acl_owner_scope\<rparr>) = []
   \<and> fst (list_instances (example_resolver\<lparr>acl := Some acl_owner_scope\<rparr>) empty_list_input
            [''id''] example_ctx example_sys)
       = Inr \<lparr>results = [[(''id'', JStr ''A'')]],
              pageInfo = \<lparr>totalCount = JNum 1, page_offset = 0, pageSize = 200\<rparr>\<rparr>
   \<and> (\<exists>q row. row \<in> set (table example_sys)
          \<and> owned_by (example_resolver\<lparr>acl := Some acl_owner_scope\<rparr>)
               \<lparr>ident_id = ''u1'', isValidatedEmail = False\<rparr> row
          \<and> [(''id'', JStr ''A'')] =
              getInstance (example_resolver\<lparr>acl := Some acl_owner_scope\<rparr>)
                (project_row q (length (matching_rows q example_sys)) row)
                (fst (userToAclTargets (example_resolver\<lparr>acl := Some acl_owner_scope\<rparr>)
                       (Some \<lparr>ident_id = ''u1'', isValidatedEmail = False\<rparr>)
                       (Some (project_row q (length (matching_rows q example_sys)) row))))
                [''id''])"
proof -
  let ?R = "example_resolver\<lparr>acl := Some acl_owner_scope\<rparr>"
  let ?u = "\<lparr>ident_id = ''u1'', isValidatedEmail = False\<rparr>"
  let ?res = "\<lparr>results = [[(''id'', JStr ''A'')]],
              pageInfo = \<lparr>totalCount = JNum 1, page_offset = 0, pageSize = 200\<rparr>\<rparr>"
  have n: "fst (resolveUserForContext anonymous_ctx example_sys) = None"
    "list_restrictions ?R None = Some [''owner'']" "''all'' \<notin> set [''owner'']"
    by code_simp+
  have y: "fst (resolveUserForContext example_ctx example_sys) = Some ?u"
    "list_restrictions ?R (Some ?u) = Some [''owner'']"
    "ownerFields ?R \<noteq> []" "modifyListingQuery ?R = []"
    by code_simp+
  have l: "fst (list_instances ?R empty_list_input [''id''] example_ctx example_sys) = Inr ?res"
    by code_simp
  from listing_scoped_to_owner
         [of anonymous_ctx example_sys ?R "[''owner'']" empty_list_input "[''id'']" ?u] n
  have 1: "\<exists>m. fst (list_instances ?R empty_list_input [''id''] anonymous_ctx example_sys)
             = Inl (AuthorizationError m)"
    by blast
  have d: "[(''id'', JStr ''A'')] \<in> set (results ?res)" by simp
  from listing_scoped_to_owner
         [of example_ctx example_sys ?R "[''owner'']" empty_list_input "[''id'']" ?u] y n(3) l d
  have 2: "\<exists>q row. row \<in> set (table example_sys) \<and> owned_by ?R ?u row \<and>
                    eval_builder row (filter_part ?R empty_list_input) \<and>
                    [(''id'', JStr ''A'')] =
                      getInstance ?R (project_row q (length (matching_rows q example_sys)) row)
                            (fst (userToAclTargets ?R (Some ?u)
                                   (Some (project_row q (length (matching_rows q example_sys)) row))))
                            [''id'']"
    by blast
  from n(1,2) y l 1 2 show ?thesis by blast
qed

text \<open>
  Claim C2 on a model without owner fields. The source attaches the ownership condition
  only inside \<open>if(this.ownerFields && this.ownerFields.length)\<close>. With the access scope
  \<open>owner\<close> and no owner field declared, the subject \<open>u1\<close> is listed both stored
  submissions, also \<open>B\<close>, which \<open>u2\<close> submitted; no owner field of a returned entity
  holds the subject's id. \<open>get\<close> by the same subject refuses each of the two with an
  \<open>AuthorizationError\<close>, since \<open>_restrictionsApplyToUser\<close> admits the scope
  \<open>owner\<close> to owners only.
\<close>

theorem listing_unscoped_without_owner_fields:
  "fst (resolveUserForContext example_ctx example_sys) =
       Some \<lparr>ident_id = ''u1'', isValidatedEmail = False\<rparr>
   \<and> list_restrictions (example_resolver\<lparr>acl := Some acl_owner_scope, ownerFields := []\<rparr>)
       (Some \<lparr>ident_id = ''u1'', isValidatedEmail = False\<rparr>) = Some [''owner'']
   \<and> fst (list_instances (example_resolver\<lparr>acl := Some acl_owner_scope, ownerFields := []\<rparr>)
            empty_list_input [''id'', ''submitterId''] example_ctx example_sys)
       = Inr \<lparr>results = [[(''id'', JStr ''A''), (''restrictedFields'', JArr [JStr ''submitterId''])],
                          [(''id'', JStr ''B''), (''restrictedFields'', JArr [JStr ''submitterId''])]],
              pageInfo = \<lparr>totalCount = JNum 2, page_offset = 0, pageSize = 200\<rparr>\<rparr>
   \<and> table example_sys = [row_A, row_B]
   \<and> getProp row_B ''submitterId'' = JStr ''u2''
   \<and> \<not> owned_by (example_resolver\<lparr>acl := Some acl_owner_scope, ownerFields := []\<rparr>)
          \<lparr>ident_id = ''u1'', isValidatedEmail = False\<rparr> row_A
   \<and> \<not> owned_by (example_resolver\<lparr>acl := Some acl_owner_scope, ownerFields := []\<rparr>)
          \<lparr>ident_id = ''u1'', isValidatedEmail = False\<rparr> row_B
   \<and> fst (get (example_resolver\<lparr>acl := Some acl_owner_scope, ownerFields := []\<rparr>)
            (JStr ''A'') [''id'', ''submitterId''] example_ctx example_sys)
       = Inl (AuthorizationError ''You do not have access to this object.'')
   \<and> fst (get (example_resolver\<lparr>acl := Some acl_owner_scope, ownerFields := []\<rparr>)
            (JStr ''B'') [''id'', ''submitterId''] example_ctx example_sys)
       = Inl (AuthorizationError ''You do not have access to this object.'')"
  by code_simp

section \<open>The state a completed task applies\<close>

lemma map_of_pick_fold:
  "map_of (fold (\<lambda>p r. case map_of ob p of None \<Rightarrow> r | Some v \<Rightarrow> AList.update p v r) ps acc) k =
     (if k \<in> set ps \<and> map_of ob k \<noteq> None then map_of ob k else map_of acc k)"
proof (induction ps arbitrary: acc)
  case Nil
  then show ?case by simp
next
  case (Cons p ps)
  show ?case
    by (cases "map_of ob p") (auto simp: Cons update_conv')
qed

lemma map_of_pick: "map_of (pick ob ps) k = (if k \<in> set ps then map_of ob k else None)"
  using map_of_pick_fold [of ob ps "[]" k] by (auto simp: pick_def)

lemma fold_overlay_Inl: "fold (overlay_step R) xs (Inl e) = Inl e"
  by (induction xs) (simp_all add: overlay_step_def)

lemma overlay_step_Inr:
  "overlay_step R kv (Inr acc) = Inr acc' \<Longrightarrow>
     acc' = (case forced_entry R (snd kv) of None \<Rightarrow> acc | Some x \<Rightarrow> AList.update (fst kv) x acc)"
  by (auto simp: overlay_step_def forced_entry_def split: jsval.splits list.splits if_splits)

lemma overlay_step_cases:
  "(\<exists>e. overlay_step R kv (Inr acc) = Inl e) \<or>
   overlay_step R kv (Inr acc) =
     Inr (case forced_entry R (snd kv) of None \<Rightarrow> acc | Some x \<Rightarrow> AList.update (fst kv) x acc)"
  using overlay_step_Inr [of R kv acc] by (cases "overlay_step R kv (Inr acc)") auto

lemma fold_overlay:
  "fold (overlay_step R) forced (Inr acc) = Inr ov \<Longrightarrow> distinct (map fst forced) \<Longrightarrow>
     map_of ov k =
       (case map_of forced k of
          None \<Rightarrow> map_of acc k
        | Some v \<Rightarrow> (case forced_entry R v of None \<Rightarrow> map_of acc k | Some x \<Rightarrow> Some x))
     \<and> (distinct (map fst acc) \<longrightarrow> distinct (map fst ov))"
proof (induction forced arbitrary: acc)
  case Nil
  then show ?case by simp
next
  case (Cons kv forced)
  obtain key v where kv: "kv = (key, v)" by (cases kv)
  let ?acc' = "case forced_entry R v of None \<Rightarrow> acc | Some x \<Rightarrow> AList.update key x acc"
  have step: "overlay_step R kv (Inr acc) = Inr ?acc'"
    using overlay_step_cases [of R kv acc] Cons.prems(1) fold_overlay_Inl [of R forced]
    by (auto simp: kv split: option.splits)
  then have rest: "fold (overlay_step R) forced (Inr ?acc') = Inr ov"
    using Cons.prems(1) by simp
  have d: "distinct (map fst forced)" and nk: "key \<notin> fst ` set forced"
    using Cons.prems(2) by (simp_all add: kv)
  note ih = Cons.IH [OF rest d]
  have nf: "k = key \<Longrightarrow> map_of forced k = None"
    using nk by (simp add: map_of_eq_None_iff)
  have acc': "map_of ?acc' k =
      (if k = key then (case forced_entry R v of None \<Rightarrow> map_of acc k | Some x \<Rightarrow> Some x)
       else map_of acc k)"
    by (cases "forced_entry R v") (simp_all add: update_conv')
  have dacc: "distinct (map fst acc) \<Longrightarrow> distinct (map fst ?acc')"
    by (cases "forced_entry R v") (simp_all add: distinct_update)
  show ?case
  proof (cases "k = key")
    case True
    with ih nf acc' dacc show ?thesis by (auto simp: kv split: option.splits)
  next
    case False
    with ih acc' dacc show ?thesis by (auto simp: kv split: option.splits)
  qed
qed

lemma map_of_Object_assign:
  "distinct (map fst src) \<Longrightarrow>
     map_of (Object_assign target src) k =
       (case map_of src k of None \<Rightarrow> map_of target k | Some v \<Rightarrow> Some v)"
  unfolding Object_assign_def
proof (induction src arbitrary: target)
  case Nil
  then show ?case by simp
next
  case (Cons kv src)
  obtain key v where kv: "kv = (key, v)" by (cases kv)
  have nk: "key \<notin> fst ` set src" and d: "distinct (map fst src)"
    using Cons.prems by (simp_all add: kv)
  have nf: "k = key \<Longrightarrow> map_of src k = None"
    using nk by (simp add: map_of_eq_None_iff)
  show ?case
    using Cons.IH [OF d, of "AList.update key v target"] nf
    by (cases "k = key") (simp_all add: kv update_conv' split: option.splits)
qed

lemma filteredState_lookup:
  assumes fs: "filteredState_of R od state = Inr fs" and wf: "wellformed_outcome od"
  shows "map_of fs k =
           (case forced_value R od k of None \<Rightarrow> client_value R state k | Some v \<Rightarrow> Some v)"
proof -
  let ?picked = "case state of
                   JObj st \<Rightarrow> if map field (stateFields R) \<noteq> [] then pick st (map field (stateFields R)) else []
                 | _ \<Rightarrow> []"
  have p: "map_of ?picked k = client_value R state k"
    by (cases state) (auto simp: client_value_def map_of_pick)
  show ?thesis
  proof (cases "outcome_state od")
    case None
    with fs p show ?thesis
      by (simp add: filteredState_of_def Let_def forced_value_def)
  next
    case (Some forced)
    with fs obtain ov where ov: "fold (overlay_step R) forced (Inr []) = Inr ov"
      and f: "fs = Object_assign ?picked ov"
      by (auto simp: filteredState_of_def Let_def split: sum.splits)
    from wf Some have d: "distinct (map fst forced)"
      by (simp add: wellformed_outcome_def Object_keys_def)
    from fold_overlay [OF ov d, of k]
    have o: "map_of ov k = forced_value R od k" and dov: "distinct (map fst ov)"
      by (simp_all add: forced_value_def Some split: option.splits)
    show ?thesis
      unfolding f map_of_Object_assign [OF dov] o p ..
  qed
qed


lemma strict_eq_eq: "strict_eq a b \<Longrightarrow> a = b"
  by (cases a) simp_all

lemma getProp_update: "getProp (AList.update key v ob) k = (if k = key then v else getProp ob k)"
  by (simp add: getProp_def update_conv')

lemma state_step_getProp:
  "getProp (fst (state_step fs key st)) k =
     (if k = key then getProp fs key else getProp (fst st) k)"
  using strict_eq_eq [of "getProp (fst st) key" "getProp fs key"]
  by (auto simp: state_step_def Let_def getProp_update)

lemma fold_state_step_holds:
  "k \<in> set ks \<or> getProp (fst st) k = getProp fs k \<Longrightarrow>
     getProp (fst (fold (state_step fs) ks st)) k = getProp fs k"
proof (induction ks arbitrary: st)
  case Nil
  then show ?case by simp
next
  case (Cons key ks)
  have "k \<in> set ks \<or> getProp (fst (state_step fs key st)) k = getProp fs k"
    using Cons.prems by (auto simp: state_step_getProp)
  from Cons.IH [OF this] show ?case by simp
qed

lemma fold_state_step_unmodified:
  "\<not> fst (snd (fold (state_step fs) ks st)) \<Longrightarrow>
     \<not> fst (snd st) \<and> fst (fold (state_step fs) ks st) = fst st"
proof (induction ks arbitrary: st)
  case Nil
  then show ?case by simp
next
  case (Cons key ks)
  from Cons.IH [of "state_step fs key st"] Cons.prems
  have a: "\<not> fst (snd (state_step fs key st))"
    and b: "fst (fold (state_step fs) ks (state_step fs key st)) = fst (state_step fs key st)"
    by simp_all
  from a have "\<not> fst (snd st) \<and> fst (state_step fs key st) = fst st"
    by (auto simp: state_step_def Let_def)
  with b show ?case by simp
qed

lemma apply_state_holds: "holds_state (fst (apply_state fs st)) fs"
proof (cases "fs = []")
  case True
  then show ?thesis by (simp add: holds_state_def Object_keys_def)
next
  case False
  have "getProp (fst (fold (state_step fs) (Object_keys fs) (fst st, snd st, []))) k = getProp fs k"
    if "k \<in> set (Object_keys fs)" for k
    using that fold_state_step_holds [of k "Object_keys fs"] by blast
  with False show ?thesis
    by (simp add: holds_state_def apply_state_def Let_def list_all_iff)
qed

lemma apply_state_unmodified:
  assumes "\<not> fst (snd (apply_state fs st))"
  shows "\<not> snd st \<and> fst (apply_state fs st) = fst st"
proof (cases "fs = []")
  case True
  with assms show ?thesis by (simp add: apply_state_def)
next
  case False
  with assms have "\<not> fst (snd (fold (state_step fs) (Object_keys fs) (fst st, snd st, [])))"
    by (simp add: apply_state_def Let_def)
  note c = fold_state_step_unmodified [OF this]
  from conjunct1 [OF c] have a: "\<not> snd st"
    by simp
  from conjunct2 [OF c]
  have b: "fst (fold (state_step fs) (Object_keys fs) (fst st, snd st, [])) = fst st"
    by (simp only: fst_conv)
  have "fst (apply_state fs st) = fst st"
    unfolding apply_state_def Let_def using False b by simp
  with a show ?thesis by blast
qed

lemma in_trace_log: "e \<in> set (trace s) \<Longrightarrow> e \<in> set (trace (log_effect e' s))"
  by (simp add: trace_log)

lemma fold_state_step_getProp:
  "getProp (fst (fold (state_step fs) ks st)) k =
     (if k \<in> set ks then getProp fs k else getProp (fst st) k)"
proof (induction ks arbitrary: st)
  case Nil
  then show ?case by simp
next
  case (Cons key ks)
  show ?case
    using Cons [of "state_step fs key st"] state_step_getProp [of fs key st k]
    by (simp only: fold_simps list.set comp_apply) auto
qed

lemma apply_state_getProp:
  "getProp (fst (apply_state fs st)) k =
     (if k \<in> set (Object_keys fs) then getProp fs k else getProp (fst st) k)"
proof (cases "fs = []")
  case True
  then show ?thesis by (simp add: apply_state_def Object_keys_def)
next
  case False
  then show ?thesis
    using fold_state_step_getProp [of fs "Object_keys fs" "(fst st, snd st, [])" k]
    by (simp add: apply_state_def Let_def)
qed

lemma fold_sequence_step_getProp:
  "k \<notin> field ` set fs \<Longrightarrow> getProp (fst (fold sequence_step fs st)) k = getProp (fst st) k"
proof (induction fs arbitrary: st)
  case Nil
  then show ?case by simp
next
  case (Cons f fs)
  have "getProp (fst (sequence_step f st)) k = getProp (fst st) k"
    using Cons.prems by (simp add: sequence_step_def Let_def getProp_update)
  with Cons.IH [of "sequence_step f st"] Cons.prems show ?case by simp
qed

lemma fold_sequence_step_trace:
  "\<exists>es. trace (snd (fold sequence_step fs st)) = trace (snd st) @ es \<and>
        (\<forall>e. DbSave e \<notin> set es)"
proof (induction fs arbitrary: st)
  case Nil
  then show ?case by simp
next
  case (Cons f fs)
  have t: "trace (snd (sequence_step f st)) = trace (snd st) @ [DbNextval (idSequence f)]"
    by (simp add: sequence_step_def Let_def trace_log)
  from Cons [of "sequence_step f st"] obtain es where
    "trace (snd (fold sequence_step fs (sequence_step f st))) =
       trace (snd (sequence_step f st)) @ es" "\<forall>e. DbSave e \<notin> set es"
    by blast
  with t have "trace (snd (fold sequence_step (f # fs) st)) =
                 trace (snd st) @ (DbNextval (idSequence f) # es) \<and>
               (\<forall>e. DbSave e \<notin> set (DbNextval (idSequence f) # es))"
    by simp
  then show ?case by blast
qed

lemma fold_date_getProp:
  "k \<notin> set ds \<Longrightarrow> getProp (fold (\<lambda>f ob. AList.update f v ob) ds ob) k = getProp ob k"
  by (induction ds arbitrary: ob) (simp_all add: getProp_update)

lemma saves_publish:
  "DbSave e \<in> set (trace (publishInstanceWasModified R i s)) \<longleftrightarrow> DbSave e \<in> set (trace s)"
  by (simp add: publishInstanceWasModified_def trace_log)

lemma completeTask_apply_writes:
  "\<exists>ent. holds_state ent fs \<and>
         (\<forall>k. k \<notin> set (Object_keys fs) \<and> k \<notin> set (assigned_fields R od inst) \<longrightarrow>
                getProp ent k = getProp inst k) \<and>
         (DbSave ent \<in> set (trace (snd (completeTask_apply R args od inst fs s))) \<or> ent = inst) \<and>
         (\<forall>e. DbSave e \<in> set (trace (snd (completeTask_apply R args od inst fs s))) \<longrightarrow>
                DbSave e \<in> set (trace s) \<or> e = ent)"
proof -
  let ?toAssign = "idSequencesToAssign R od inst"
  let ?seq = "fold sequence_step ?toAssign (inst, s)"
  let ?dates = "dateFieldsToAssign R od"
  let ?dated = "fold (\<lambda>f ob. AList.update f (now s) ob) ?dates (fst ?seq)"
  let ?applied = "apply_state fs (?dated, ?toAssign \<noteq> [] \<or> ?dates \<noteq> [])"
  let ?final = "snd (completeTask_apply R args od inst fs s)"
  have h: "holds_state (fst ?applied) fs" by (rule apply_state_holds)
  have keep: "getProp (fst ?applied) k = getProp inst k"
    if "k \<notin> set (Object_keys fs) \<and> k \<notin> set (assigned_fields R od inst)" for k
  proof -
    from that have a: "k \<notin> set (Object_keys fs)" and b: "k \<notin> field ` set ?toAssign"
      and c: "k \<notin> set ?dates"
      by (simp_all add: assigned_fields_def)
    have "getProp (fst ?applied) k = getProp ?dated k"
      using a by (simp add: apply_state_getProp)
    also have "\<dots> = getProp (fst ?seq) k"
      using c by (rule fold_date_getProp)
    also have "\<dots> = getProp inst k"
      using fold_sequence_step_getProp [OF b, of "(inst, s)"] by simp
    finally show ?thesis .
  qed
  obtain es where es: "trace (snd ?seq) = trace s @ es" "\<forall>e. DbSave e \<notin> set es"
    using fold_sequence_step_trace [of ?toAssign "(inst, s)"] by auto
  show ?thesis
  proof (cases "fst (snd ?applied)")
    case True
    have tr: "\<And>e. DbSave e \<in> set (trace ?final) \<longleftrightarrow>
                 DbSave e \<in> set (trace s) \<or> e = fst ?applied"
      unfolding completeTask_apply_def Let_def
      using True es by (auto simp: saves_publish db_save_def trace_log)
    from h keep tr show ?thesis by blast
  next
    case False
    note u = apply_state_unmodified [OF False]
    from conjunct1 [OF u] have ta: "?toAssign = []" and da: "?dates = []"
      by simp_all
    from conjunct2 [OF u] have ap: "fst ?applied = ?dated"
      by (simp only: fst_conv)
    have "?dated = inst" by (simp add: ta da)
    from trans [OF ap this] have i: "fst ?applied = inst" .
    have tr: "\<And>e. DbSave e \<in> set (trace ?final) \<longleftrightarrow> DbSave e \<in> set (trace s)"
      unfolding completeTask_apply_def Let_def
      using False es by (auto simp: saves_publish trace_log)
    from h keep i tr show ?thesis by metis
  qed
qed

lemma prefetch_no_save:
  assumes "DbSave e \<in> set (trace (log_effect (EngineListTasks i)
                     (snd (snd (resolveUserForContext c (snd (db_find i s)))))))"
  shows "DbSave e \<in> set (trace s)"
proof -
  from prefetch_state [of i c s] obtain es where
    es: "trace (log_effect (EngineListTasks i)
               (snd (snd (resolveUserForContext c (snd (db_find i s)))))) = trace s @ es"
        "list_all is_prefetch es"
    by blast
  have "DbSave e \<notin> set es"
    using es(2) by (auto simp: list_all_iff is_prefetch_def)
  with assms es(1) show ?thesis by simp
qed

text \<open>
  Claim C4, as the source has it. When \<open>completeTask\<close> succeeds, the filtered state is
  the client's state restricted to the declared state fields, overlaid by the values the
  outcome forces: under each key the forced value when the outcome forces one (an
  \<open>enum\<close> entry \<open>E.K\<close> forces \<open>enums[E].values[K]\<close> when that is truthy and nothing
  otherwise, a \<open>simple\<close> entry forces its value), else the client's value. That state
  is applied to the entity that was found: the entity after the call holds the state's
  value under every key of the state and, under every other key that is not an
  id-sequence or date field the outcome assigns, the value the found entity had. It is the
  only object the call saves; when nothing is saved it is the entity as found. The engine
  is sent, of that state, the entries whose value is a string, a number or \<open>null\<close>,
  each wrapped as \<open>{value: v}\<close>.
\<close>

theorem completeTask_state_overlay:
  assumes ok: "fst (completeTask R args c s) = Inr Success"
  shows "\<exists>fd od inst fs.
           completeTask_checks R args = Inr (fd, od) \<and>
           fst (db_find (getProp args ''id'') s) = Some inst \<and>
           filteredState_of R od (getProp args ''state'') = Inr fs \<and>
           (wellformed_outcome od \<longrightarrow>
              (\<forall>k. map_of fs k =
                     (case forced_value R od k of
                        None \<Rightarrow> client_value R (getProp args ''state'') k
                      | Some v \<Rightarrow> Some v))) \<and>
           (\<exists>ent. holds_state ent fs \<and>
                  (\<forall>k. k \<notin> set (Object_keys fs) \<and> k \<notin> set (assigned_fields R od inst) \<longrightarrow>
                         getProp ent k = getProp inst k) \<and>
                  (DbSave ent \<in> set (trace (snd (snd (completeTask R args c s)))) \<or> ent = inst) \<and>
                  (\<forall>e. DbSave e \<in> set (trace (snd (snd (completeTask R args c s)))) \<longrightarrow>
                         DbSave e \<in> set (trace s) \<or> e = ent)) \<and>
           (\<exists>vars. EngineComplete (getProp args ''taskId'') (if fs = [] then None else Some vars)
                     \<in> set (trace (snd (snd (completeTask R args c s)))) \<and>
                   map_of vars = marshalled (Object_keys fs) (getProp fs))"
proof -
  from ok obtain fd od where chk: "completeTask_checks R args = Inr (fd, od)"
    by (cases "completeTask_checks R args") (auto simp: completeTask_def)
  with ok have run: "fst (completeTask_run R args fd od c s) = Inr Success"
    and same: "completeTask R args c s = completeTask_run R args fd od c s"
    by (simp_all add: completeTask_def)
  let ?s1 = "log_effect (EngineListTasks (getProp args ''id''))
               (snd (snd (resolveUserForContext c (snd (db_find (getProp args ''id'') s)))))"
  from completeTask_run_success [OF run] obtain inst fs where
    found: "fst (db_find (getProp args ''id'') s) = Some inst" and
    fs: "filteredState_of R od (getProp args ''state'') = Inr fs" and
    tr: "snd (snd (completeTask_run R args fd od c s)) = snd (completeTask_apply R args od inst fs ?s1)"
    by blast
  have look: "wellformed_outcome od \<longrightarrow>
              (\<forall>k. map_of fs k =
                     (case forced_value R od k of
                        None \<Rightarrow> client_value R (getProp args ''state'') k
                      | Some v \<Rightarrow> Some v))"
    using filteredState_lookup [OF fs] by blast
  from completeTask_apply_writes [of fs R od inst args ?s1] obtain ent where
    e1: "holds_state ent fs" and
    e2: "\<forall>k. k \<notin> set (Object_keys fs) \<and> k \<notin> set (assigned_fields R od inst) \<longrightarrow>
              getProp ent k = getProp inst k" and
    e3: "DbSave ent \<in> set (trace (snd (completeTask_apply R args od inst fs ?s1))) \<or> ent = inst" and
    e4: "\<forall>e. DbSave e \<in> set (trace (snd (completeTask_apply R args od inst fs ?s1))) \<longrightarrow>
              DbSave e \<in> set (trace ?s1) \<or> e = ent"
    by blast
  have e4': "\<forall>e. DbSave e \<in> set (trace (snd (completeTask_apply R args od inst fs ?s1))) \<longrightarrow>
              DbSave e \<in> set (trace s) \<or> e = ent"
    using e4 prefetch_no_save [of _ "getProp args ''id''" c s] by blast
  have ent: "\<exists>ent. holds_state ent fs \<and>
                  (\<forall>k. k \<notin> set (Object_keys fs) \<and> k \<notin> set (assigned_fields R od inst) \<longrightarrow>
                         getProp ent k = getProp inst k) \<and>
                  (DbSave ent \<in> set (trace (snd (snd (completeTask R args c s)))) \<or> ent = inst) \<and>
                  (\<forall>e. DbSave e \<in> set (trace (snd (snd (completeTask R args c s)))) \<longrightarrow>
                         DbSave e \<in> set (trace s) \<or> e = ent)"
    unfolding same tr using e1 e2 e3 e4' by blast
  have call: "EngineComplete (getProp args ''taskId'')
                (if fs = [] then None else Some (completeTaskForInstance_variables fs))
              \<in> set (trace (snd (snd (completeTask R args c s))))"
    unfolding same tr by (rule completeTask_apply_engine_call)
  have vars: "map_of (completeTaskForInstance_variables fs) = marshalled (Object_keys fs) (getProp fs)"
    by (rule ext) (simp add: completeTaskForInstance_variables_lookup marshalled_def forwardable_spec)
  from chk found fs look ent call vars show ?thesis by blast
qed

text \<open>
  Claim C4 as stated fails on what is forwarded: the client's \<open>flag: true\<close> is a
  declared state field, it is written to the saved entity, and the variables sent to the
  engine do not contain it.
\<close>

theorem completeTask_state_counterexample:
  "fst (completeTask workflow_resolver accept_args example_ctx example_sys) = Inr Success
   \<and> filteredState_of workflow_resolver accept_outcome (getProp accept_args ''state'') =
       Inr [(''phase'', JStr ''published''), (''flag'', JBool True), (''round'', JNum 2)]
   \<and> trace (snd (snd (completeTask workflow_resolver accept_args example_ctx example_sys))) =
       [DbFind (JStr ''A''), IdentityFind ''u1'', EngineListTasks (JStr ''A''),
        DbSave [(''id'', JStr ''A''), (''title'', JStr ''Paper''), (''secretCost'', JNum 7),
                (''phase'', JStr ''published''), (''submitterId'', JStr ''u1''),
                (''flag'', JBool True), (''round'', JNum 2)],
        EngineComplete (JStr ''T'')
          (Some [(''phase'', JObj [(''value'', JStr ''published'')]),
                 (''round'', JObj [(''value'', JNum 2)])]),
        Publish ''Submission.updated'' [(''modifiedSubmission'', JStr ''A'')]]"
  by code_simp

theorem completeTask_state_witness:
  "fst (completeTask workflow_resolver accept_args example_ctx example_sys) = Inr Success
   \<and> wellformed_outcome accept_outcome
   \<and> forced_value workflow_resolver accept_outcome ''phase'' = Some (JStr ''published'')
   \<and> client_value workflow_resolver (getProp accept_args ''state'') ''phase'' = Some (JStr ''hacked'')
   \<and> forced_value workflow_resolver accept_outcome ''flag'' = None
   \<and> client_value workflow_resolver (getProp accept_args ''state'') ''flag'' = Some (JBool True)
   \<and> client_value workflow_resolver (getProp accept_args ''state'') ''title'' = None
   \<and> assigned_fields workflow_resolver accept_outcome row_A = []
   \<and> (\<exists>fs. filteredState_of workflow_resolver accept_outcome (getProp accept_args ''state'') = Inr fs
          \<and> map_of fs ''phase'' = Some (JStr ''published'')
          \<and> map_of fs ''flag'' = Some (JBool True)
          \<and> map_of fs ''title'' = None
          \<and> holds_state
                [(''id'', JStr ''A''), (''title'', JStr ''Paper''), (''secretCost'', JNum 7),
                 (''phase'', JStr ''published''), (''submitterId'', JStr ''u1''),
                 (''flag'', JBool True), (''round'', JNum 2)] fs
          \<and> (\<exists>vars. EngineComplete (JStr ''T'') (if fs = [] then None else Some vars)
                       \<in> set (trace (snd (snd (completeTask workflow_resolver accept_args
                                                   example_ctx example_sys))))
                  \<and> map_of vars = marshalled (Object_keys fs) (getProp fs)))
   \<and> DbSave [(''id'', JStr ''A''), (''title'', JStr ''Paper''), (''secretCost'', JNum 7),
              (''phase'', JStr ''published''), (''submitterId'', JStr ''u1''),
              (''flag'', JBool True), (''round'', JNum 2)]
        \<in> set (trace (snd (snd (completeTask workflow_resolver accept_args example_ctx example_sys))))
   \<and> getProp [(''id'', JStr ''A''), (''title'', JStr ''Paper''), (''secretCost'', JNum 7),
                (''phase'', JStr ''published''), (''submitterId'', JStr ''u1''),
                (''flag'', JBool True), (''round'', JNum 2)] ''title'' = getProp row_A ''title''"
proof -
  let ?saved = "[(''id'', JStr ''A''), (''title'', JStr ''Paper''), (''secretCost'', JNum 7),
                 (''phase'', JStr ''published''), (''submitterId'', JStr ''u1''),
                 (''flag'', JBool True), (''round'', JNum 2)]"
  let ?final = "snd (snd (completeTask workflow_resolver accept_args example_ctx example_sys))"
  have ok: "fst (completeTask workflow_resolver accept_args example_ctx example_sys) = Inr Success"
    by code_simp
  have chk: "completeTask_checks workflow_resolver accept_args = Inr (curate_form, accept_outcome)"
    by code_simp
  have found: "fst (db_find (getProp accept_args ''id'') example_sys) = Some row_A"
    by code_simp
  have tid: "getProp accept_args ''taskId'' = JStr ''T''"
    by code_simp
  have wf: "wellformed_outcome accept_outcome" by code_simp
  have v: "forced_value workflow_resolver accept_outcome ''phase'' = Some (JStr ''published'')"
    "client_value workflow_resolver (getProp accept_args ''state'') ''phase'' = Some (JStr ''hacked'')"
    "forced_value workflow_resolver accept_outcome ''flag'' = None"
    "client_value workflow_resolver (getProp accept_args ''state'') ''flag'' = Some (JBool True)"
    "forced_value workflow_resolver accept_outcome ''title'' = None"
    "client_value workflow_resolver (getProp accept_args ''state'') ''title'' = None"
    by code_simp+
  have none: "assigned_fields workflow_resolver accept_outcome row_A = []" by code_simp
  have before: "trace example_sys = []" by code_simp
  have saved: "DbSave ?saved \<in> set (trace ?final)" by code_simp
  from completeTask_state_overlay [OF ok] obtain fd od inst fs where
    h: "completeTask_checks workflow_resolver accept_args = Inr (fd, od)"
       "fst (db_find (getProp accept_args ''id'') example_sys) = Some inst"
       "filteredState_of workflow_resolver od (getProp accept_args ''state'') = Inr fs"
       "wellformed_outcome od \<longrightarrow>
              (\<forall>k. map_of fs k =
                     (case forced_value workflow_resolver od k of
                        None \<Rightarrow> client_value workflow_resolver (getProp accept_args ''state'') k
                      | Some v \<Rightarrow> Some v))"
       "\<exists>ent. holds_state ent fs \<and>
                  (\<forall>k. k \<notin> set (Object_keys fs) \<and>
                        k \<notin> set (assigned_fields workflow_resolver od inst) \<longrightarrow>
                         getProp ent k = getProp inst k) \<and>
                  (DbSave ent \<in> set (trace ?final) \<or> ent = inst) \<and>
                  (\<forall>e. DbSave e \<in> set (trace ?final) \<longrightarrow>
                         DbSave e \<in> set (trace example_sys) \<or> e = ent)"
       "\<exists>vars. EngineComplete (getProp accept_args ''taskId'') (if fs = [] then None else Some vars)
                     \<in> set (trace ?final) \<and>
                   map_of vars = marshalled (Object_keys fs) (getProp fs)"
    by blast
  from h(1) chk have od: "od = accept_outcome" by simp
  from h(2) found have inst: "inst = row_A" by simp
  from h(4) wf od v have m: "map_of fs ''phase'' = Some (JStr ''published'')"
    "map_of fs ''flag'' = Some (JBool True)" "map_of fs ''title'' = None"
    by simp_all
  from m(3) have nt: "''title'' \<notin> set (Object_keys fs)"
    by (simp add: Object_keys_def map_of_eq_None_iff)
  from h(5) obtain ent where
    e: "holds_state ent fs"
       "\<forall>k. k \<notin> set (Object_keys fs) \<and> k \<notin> set (assigned_fields workflow_resolver od inst) \<longrightarrow>
             getProp ent k = getProp inst k"
       "\<forall>e. DbSave e \<in> set (trace ?final) \<longrightarrow> DbSave e \<in> set (trace example_sys) \<or> e = ent"
    by blast
  from e(3) saved before have ent: "ent = ?saved" by auto
  from e(1) have hs: "holds_state ?saved fs" unfolding ent .
  from e(2) nt none have kept: "getProp ?saved ''title'' = getProp row_A ''title''"
    unfolding ent od inst by simp
  from h(3,6) m hs have "\<exists>fs. filteredState_of workflow_resolver accept_outcome (getProp accept_args ''state'') = Inr fs
          \<and> map_of fs ''phase'' = Some (JStr ''published'')
          \<and> map_of fs ''flag'' = Some (JBool True)
          \<and> map_of fs ''title'' = None
          \<and> holds_state ?saved fs
          \<and> (\<exists>vars. EngineComplete (JStr ''T'') (if fs = [] then None else Some vars)
                       \<in> set (trace ?final)
                  \<and> map_of vars = marshalled (Object_keys fs) (getProp fs))"
    unfolding od tid by blast
  with ok wf v(1-4,6) none saved kept show ?thesis by blast
qed

end
